theory Spec2Isabelle
  imports
    Main
    "HOL-Library.AList"
    "HOL-Library.Char_ord"
    "HOL-Library.List_Lexorder"
    "HOL-Library.Product_Lexorder"
begin

section \<open>Python strings and integers\<close>

text \<open>
  Strings are lists of 8-bit characters, read as code points 0..255. The helpers below are
  the library operations the sources call: \<^verbatim>\<open>str.strip\<close>, \<^verbatim>\<open>str.split\<close>, \<^verbatim>\<open>str.isdigit\<close>
  on ASCII text, and \<^verbatim>\<open>int(str)\<close>. An exception is a value of \<open>py_error\<close>.
\<close>

datatype py_error = ValueError | OverflowError

definition py_isspace :: "char \<Rightarrow> bool" where
  "py_isspace c = ((of_char c :: int) \<in> {9, 10, 11, 12, 13, 28, 29, 30, 31, 32, 133, 160})"

definition strip_chars :: "(char \<Rightarrow> bool) \<Rightarrow> string \<Rightarrow> string" where
  "strip_chars p s = rev (dropWhile p (rev (dropWhile p s)))"

definition py_strip :: "string \<Rightarrow> string" where
  "py_strip s = strip_chars py_isspace s"

definition is_digit :: "char \<Rightarrow> bool" where
  "is_digit c = (48 \<le> (of_char c :: int) \<and> (of_char c :: int) \<le> 57)"

definition digit_val :: "char \<Rightarrow> int" where
  "digit_val c = of_char c - 48"

text \<open>
  The digits of a decimal literal after its first digit: digits, with single underscores
  allowed between two digits.
\<close>

fun py_digits_from :: "int \<Rightarrow> string \<Rightarrow> int option" where
  "py_digits_from acc [] = Some acc"
| "py_digits_from acc [c] = (if is_digit c then Some (10 * acc + digit_val c) else None)"
| "py_digits_from acc (c # d # ds) =
     (if is_digit c then py_digits_from (10 * acc + digit_val c) (d # ds)
      else if c = CHR ''_'' \<and> is_digit d then py_digits_from (10 * acc + digit_val d) ds
      else None)"

definition py_digits :: "string \<Rightarrow> int option" where
  "py_digits s =
     (case s of
        [] \<Rightarrow> None
      | c # cs \<Rightarrow> if is_digit c then py_digits_from (digit_val c) cs else None)"

text \<open>
  \<^verbatim>\<open>int(s)\<close> for a string: surrounding whitespace is dropped (the constructor's own
  set of blanks, smaller than the one of \<^verbatim>\<open>strip\<close>), one sign is allowed, and the rest
  is a decimal literal; \<open>None\<close> stands for the \<^verbatim>\<open>ValueError\<close>. The interpreter also
  refuses literals of more than 4300 digits.
\<close>

definition int_isspace :: "char \<Rightarrow> bool" where
  "int_isspace c = ((of_char c :: int) \<in> {9, 10, 11, 12, 13, 32, 133, 160})"

definition py_int :: "string \<Rightarrow> int option" where
  "py_int s =
     (let t = strip_chars int_isspace s in
      if length (filter is_digit t) > 4300 then None
      else case t of
        [] \<Rightarrow> None
      | c # r \<Rightarrow>
          if c = CHR ''-'' then map_option uminus (py_digits r)
          else if c = CHR ''+'' then py_digits r
          else py_digits t)"

text \<open>\<^verbatim>\<open>s.split(sep)\<close> for a one-character separator.\<close>

fun py_split :: "char \<Rightarrow> string \<Rightarrow> string list" where
  "py_split sep [] = [[]]"
| "py_split sep (c # cs) =
     (if c = sep then [] # py_split sep cs
      else (case py_split sep cs of
              [] \<Rightarrow> [[c]]
            | p # ps \<Rightarrow> (c # p) # ps))"

text \<open>
  A table row as \<^verbatim>\<open>csv.DictReader\<close> yields it: \<^verbatim>\<open>row.get(k)\<close> is \<open>row k\<close>, and \<open>None\<close>
  stands both for a column the table lacks and for a value the reader left \<^verbatim>\<open>None\<close>.
  \<open>truthy\<close> is the test \<^verbatim>\<open>if x\<close>, \<open>or_str x d\<close> the expression \<^verbatim>\<open>x or d\<close>.
\<close>

type_synonym row = "string \<rightharpoonup> string"

definition truthy :: "string option \<Rightarrow> bool" where
  "truthy x = (case x of None \<Rightarrow> False | Some s \<Rightarrow> s \<noteq> [])"

definition or_str :: "string option \<Rightarrow> string \<Rightarrow> string" where
  "or_str x d = (case x of None \<Rightarrow> d | Some s \<Rightarrow> if s = [] then d else s)"

section \<open>Calendar dates and naive datetimes\<close>

text \<open>
  A \<^verbatim>\<open>datetime.date\<close> is its triple (year, month, day) and a naive \<^verbatim>\<open>datetime.datetime\<close>
  is a date with hour, minute, second and microsecond. The interpreter compares both
  field by field, which is the lexicographic order of the tuples. Arithmetic goes through
  the proleptic Gregorian ordinal (day 1 is 0001-01-01), as in the library.
\<close>

type_synonym date = "int \<times> int \<times> int"
type_synonym datetime = "date \<times> int \<times> int \<times> int \<times> int"

definition is_leap :: "int \<Rightarrow> bool" where
  "is_leap y = (y mod 4 = 0 \<and> (y mod 100 \<noteq> 0 \<or> y mod 400 = 0))"

definition days_in_month :: "int \<Rightarrow> int \<Rightarrow> int" where
  "days_in_month y m =
     (if m = 2 then (if is_leap y then 29 else 28)
      else if m = 4 \<or> m = 6 \<or> m = 9 \<or> m = 11 then 30 else 31)"

definition valid_date :: "date \<Rightarrow> bool" where
  "valid_date d =
     (case d of (y, m, dd) \<Rightarrow>
        1 \<le> y \<and> y \<le> 9999 \<and> 1 \<le> m \<and> m \<le> 12 \<and> 1 \<le> dd \<and> dd \<le> days_in_month y m)"

definition date_min :: date where
  "date_min = (1, 1, 1)"


definition days_before_year :: "int \<Rightarrow> int" where
  "days_before_year y = (y - 1) * 365 + (y - 1) div 4 - (y - 1) div 100 + (y - 1) div 400"

definition days_before_month_common :: "int \<Rightarrow> int" where
  "days_before_month_common m =
     (if m = 1 then 0 else if m = 2 then 31 else if m = 3 then 59 else if m = 4 then 90
      else if m = 5 then 120 else if m = 6 then 151 else if m = 7 then 181
      else if m = 8 then 212 else if m = 9 then 243 else if m = 10 then 273
      else if m = 11 then 304 else 334)"

definition days_before_month :: "int \<Rightarrow> int \<Rightarrow> int" where
  "days_before_month y m = days_before_month_common m + (if m > 2 \<and> is_leap y then 1 else 0)"

definition toordinal :: "date \<Rightarrow> int" where
  "toordinal d = (case d of (y, m, dd) \<Rightarrow> days_before_year y + days_before_month y m + dd)"

definition fromordinal :: "int \<Rightarrow> date" where
  "fromordinal n =
     (let a = n - 1;
          n400 = a div 146097; b = a mod 146097;
          n100 = b div 36524; c = b mod 36524;
          n4 = c div 1461; e = c mod 1461;
          n1 = e div 365; f = e mod 365;
          year = n400 * 400 + 1 + n100 * 100 + n4 * 4 + n1
      in if n1 = 4 \<or> n100 = 4 then (year - 1, 12, 31)
         else
           let leapyear = (n1 = 3 \<and> (n4 \<noteq> 24 \<or> n100 = 3));
               month = (f + 50) div 32;
               preceding = days_before_month_common month
                             + (if month > 2 \<and> leapyear then 1 else 0)
           in if preceding > f
              then
                let month' = month - 1;
                    dim = (if month' = 2 then (if leapyear then 29 else 28)
                           else days_in_month 1 month');
                    preceding' = preceding - dim
                in (year, month', f - preceding' + 1)
              else (year, month, f - preceding + 1))"


definition weekday :: "date \<Rightarrow> int" where
  "weekday d = (toordinal d + 6) mod 7"









subsection \<open>Text forms of dates\<close>

text \<open>
  \<open>fixed_dec w n\<close> is \<^verbatim>\<open>"%0wd" % n\<close> for \<open>0 \<le> n < 10 ^ w\<close>, the range of every field of
  a date or time; \<open>read_dec\<close> reads a string of ASCII digits back. The year is written
  with four digits, as the library documents \<^verbatim>\<open>%Y\<close> and \<^verbatim>\<open>isoformat\<close>.
\<close>

definition digit_char :: "int \<Rightarrow> char" where
  "digit_char k =
     (if k = 0 then CHR ''0'' else if k = 1 then CHR ''1'' else if k = 2 then CHR ''2''
      else if k = 3 then CHR ''3'' else if k = 4 then CHR ''4'' else if k = 5 then CHR ''5''
      else if k = 6 then CHR ''6'' else if k = 7 then CHR ''7'' else if k = 8 then CHR ''8''
      else CHR ''9'')"

fun fixed_dec :: "nat \<Rightarrow> int \<Rightarrow> string" where
  "fixed_dec 0 n = []"
| "fixed_dec (Suc w) n = fixed_dec w (n div 10) @ [digit_char (n mod 10)]"

fun read_dec_acc :: "int \<Rightarrow> string \<Rightarrow> int option" where
  "read_dec_acc acc [] = Some acc"
| "read_dec_acc acc (c # cs) =
     (if is_digit c then read_dec_acc (10 * acc + digit_val c) cs else None)"

definition read_dec :: "string \<Rightarrow> int option" where
  "read_dec s = (if s = [] then None else read_dec_acc 0 s)"

definition date_isoformat :: "date \<Rightarrow> string" where
  "date_isoformat d =
     (case d of (y, m, dd) \<Rightarrow>
        fixed_dec 4 y @ ''-'' @ fixed_dec 2 m @ ''-'' @ fixed_dec 2 dd)"

definition strftime_Ymd :: "date \<Rightarrow> string" where
  "strftime_Ymd d =
     (case d of (y, m, dd) \<Rightarrow> fixed_dec 4 y @ fixed_dec 2 m @ fixed_dec 2 dd)"

definition datetime_isoformat :: "datetime \<Rightarrow> string" where
  "datetime_isoformat dt =
     (case dt of (d, h, mi, s, us) \<Rightarrow>
        date_isoformat d @ ''T'' @ fixed_dec 2 h @ '':'' @ fixed_dec 2 mi @ '':''
          @ fixed_dec 2 s @ (if us = 0 then [] else ''.'' @ fixed_dec 6 us))"

definition mk_date :: "int \<Rightarrow> int \<Rightarrow> int \<Rightarrow> date option" where
  "mk_date y m dd = (if valid_date (y, m, dd) then Some (y, m, dd) else None)"

text \<open>
  \<^verbatim>\<open>date.fromisoformat\<close> on the extended calendar form \<^verbatim>\<open>YYYY-MM-DD\<close>, the form
  \<^verbatim>\<open>isoformat\<close> writes; \<open>None\<close> stands for the \<^verbatim>\<open>ValueError\<close>. (Interpreters from 3.11 on
  also read the basic and the week forms, which no function here writes.)
\<close>

definition date_fromisoformat :: "string \<Rightarrow> date option" where
  "date_fromisoformat s =
     (if length s = 10 \<and> s ! 4 = CHR ''-'' \<and> s ! 7 = CHR ''-''
      then (case (read_dec (take 4 s), read_dec (take 2 (drop 5 s)), read_dec (drop 8 s)) of
              (Some y, Some m, Some dd) \<Rightarrow> mk_date y m dd
            | _ \<Rightarrow> None)
      else None)"

text \<open>
  \<^verbatim>\<open>datetime.strptime(s, "%Y%m%d").date()\<close> on a string of eight characters. The format
  is matched as the pattern \<^verbatim>\<open>\d\d\d\d\<close>, then \<^verbatim>\<open>1[0-2]|0[1-9]|[1-9]\<close>, then
  \<^verbatim>\<open>3[0-1]|[1-2]\d|0[1-9]|[1-9]| [1-9]\<close>, and must use up the string: with eight
  characters the month takes two and the day two, the day possibly as a space and a digit.
\<close>

definition strptime_Ymd8 :: "string \<Rightarrow> date option" where
  "strptime_Ymd8 s =
     (case (read_dec (take 4 s), read_dec (take 2 (drop 4 s))) of
        (Some y, Some m) \<Rightarrow>
          if 1 \<le> m \<and> m \<le> 12
          then (case read_dec (drop 6 s) of
                  Some dd \<Rightarrow> if 1 \<le> dd \<and> dd \<le> 31 then mk_date y m dd else None
                | None \<Rightarrow>
                    if s ! 6 = CHR '' '' \<and> is_digit (s ! 7) \<and> s ! 7 \<noteq> CHR ''0''
                    then mk_date y m (digit_val (s ! 7))
                    else None)
          else None
      | _ \<Rightarrow> None)"

definition yyyymmdd_to_date :: "string option \<Rightarrow> date option" where
  "yyyymmdd_to_date v =
     (case v of
        None \<Rightarrow> None
      | Some s \<Rightarrow> if s = [] \<or> length s \<noteq> 8 then None else strptime_Ymd8 s)"

section \<open>Route mode classification\<close>

text \<open>
  \<^verbatim>\<open>_route_mode\<close> of \<^verbatim>\<open>gtfs_index.py\<close>: the GTFS route type (an \<^verbatim>\<open>int\<close> or \<^verbatim>\<open>None\<close>)
  is mapped to one of the three mode strings.
\<close>

definition route_mode :: "int option \<Rightarrow> string" where
  "route_mode route_type =
     (case route_type of
        None \<Rightarrow> ''other''
      | Some t \<Rightarrow>
          if t = 0 \<or> (900 \<le> t \<and> t \<le> 906) then ''tram''
          else if t = 3 \<or> t = 11 \<or> (700 \<le> t \<and> t \<le> 716) \<or> t = 800 then ''bus''
          else ''other'')"


section \<open>The transit index and its load\<close>

text \<open>
  \<^verbatim>\<open>StopTime\<close>, the per-trip dictionary and \<^verbatim>\<open>GtfsIndex\<close> of \<^verbatim>\<open>gtfs_index.py\<close>. A
  dictionary is an association list in insertion order: \<open>map_of\<close> is \<^verbatim>\<open>get\<close> and
  \<open>AList.update\<close> is the assignment \<^verbatim>\<open>d[k] = v\<close> (a new key goes last, an old key keeps
  its place). The coordinates \<^verbatim>\<open>stop_coords\<close> are floating-point numbers and are left out.

  The sets of service identifiers that \<^verbatim>\<open>_active_services_for_day\<close> builds are objects
  which the cache and a caller could share, so they live in a store: \<open>set_store\<close> maps a
  reference to the set it holds, \<open>next_ref\<close> is the first unused reference, and the cache
  maps a day to a reference.
\<close>

record StopTime =
  stop_id :: string
  stop_sequence :: int
  departure_secs :: int
  arrival_secs :: int

record trip =
  route_id :: string
  service_id :: string
  trip_headsign :: string

record gtfs_index =
  routes :: "(string \<times> string) list"
  route_types :: "(string \<times> int) list"
  route_label_to_id :: "(string \<times> string) list"
  stops :: "(string \<times> string) list"
  stop_label_to_id :: "(string \<times> string) list"
  trips :: "(string \<times> trip) list"
  stop_times_by_trip :: "(string \<times> StopTime list) list"
  trips_by_route :: "(string \<times> string list) list"
  departures_by_stop :: "(string \<times> (string \<times> int) list) list"
  calendar :: "(string \<times> row) list"
  calendar_dates :: "(string \<times> (string \<times> string) list) list"
  active_services_cache :: "(date \<times> nat) list"
  set_store :: "nat \<Rightarrow> string set"
  next_ref :: nat

definition empty_index :: gtfs_index where
  "empty_index =
     \<lparr>routes = [], route_types = [], route_label_to_id = [], stops = [],
      stop_label_to_id = [], trips = [], stop_times_by_trip = [], trips_by_route = [],
      departures_by_stop = [], calendar = [], calendar_dates = [],
      active_services_cache = [], set_store = (\<lambda>r. {}), next_ref = 0\<rparr>"

text \<open>\<^verbatim>\<open>d.get(k, [])\<close>, and \<^verbatim>\<open>d[k].append(x)\<close> on a \<^verbatim>\<open>defaultdict(list)\<close>.\<close>

definition get_list :: "('k \<times> 'v list) list \<Rightarrow> 'k \<Rightarrow> 'v list" where
  "get_list d k = (case map_of d k of None \<Rightarrow> [] | Some xs \<Rightarrow> xs)"

definition append_at :: "'k \<Rightarrow> 'v \<Rightarrow> ('k \<times> 'v list) list \<Rightarrow> ('k \<times> 'v list) list" where
  "append_at k x d = AList.update k (get_list d k @ [x]) d"

definition hhmmss_to_seconds :: "string \<Rightarrow> int" where
  "hhmmss_to_seconds v =
     (case py_split (CHR '':'') v of
        [p0, p1, p2] \<Rightarrow>
          (case py_int p0 of
             None \<Rightarrow> 0
           | Some hours \<Rightarrow>
               (case py_int p1 of
                  None \<Rightarrow> 0
                | Some minutes \<Rightarrow>
                    (case py_int p2 of
                       None \<Rightarrow> 0
                     | Some seconds \<Rightarrow> hours * 3600 + minutes * 60 + seconds)))
      | _ \<Rightarrow> 0)"

text \<open>The loop over \<^verbatim>\<open>routes.txt\<close>: one row.\<close>

definition load_route_row :: "gtfs_index \<Rightarrow> row \<Rightarrow> gtfs_index" where
  "load_route_row idx r =
     (if \<not> truthy (r ''route_id'') then idx
      else
        let rid = the (r ''route_id'');
            short = py_strip (or_str (r ''route_short_name'') []);
            long = py_strip (or_str (r ''route_long_name'') []);
            stripped = strip_chars (\<lambda>c. c = CHR '' '' \<or> c = CHR ''-'') (short @ '' - '' @ long);
            label = (if stripped = [] then rid else stripped);
            rtype = (case py_int (py_strip (or_str (r ''route_type'') ''3'')) of
                       Some n \<Rightarrow> n
                     | None \<Rightarrow> 3)
        in idx\<lparr>routes := AList.update rid label (routes idx),
                route_types := AList.update rid rtype (route_types idx),
                route_label_to_id := AList.update label rid (route_label_to_id idx)\<rparr>)"

definition stop_label_of :: "string \<Rightarrow> string \<Rightarrow> string" where
  "stop_label_of name sid = name @ '' ['' @ sid @ '']''"

text \<open>The loop over \<^verbatim>\<open>stops.txt\<close>: one row (without the coordinates).\<close>

definition load_stop_row :: "gtfs_index \<Rightarrow> row \<Rightarrow> gtfs_index" where
  "load_stop_row idx r =
     (let stop_name = py_strip (or_str (r ''stop_name'') [])
      in if \<not> truthy (r ''stop_id'') \<or> stop_name = [] then idx
         else
           let sid = the (r ''stop_id'')
           in idx\<lparr>stops := AList.update sid stop_name (stops idx),
                   stop_label_to_id :=
                     AList.update (stop_label_of stop_name sid) sid (stop_label_to_id idx)\<rparr>)"

text \<open>The loop over \<^verbatim>\<open>trips.txt\<close>: one row.\<close>

definition load_trip_row :: "gtfs_index \<Rightarrow> row \<Rightarrow> gtfs_index" where
  "load_trip_row idx r =
     (if \<not> truthy (r ''trip_id'') \<or> \<not> truthy (r ''route_id'') \<or> \<not> truthy (r ''service_id'')
      then idx
      else
        let tid = the (r ''trip_id''); rid = the (r ''route_id'')
        in idx\<lparr>trips :=
                  AList.update tid
                    \<lparr>route_id = rid, service_id = the (r ''service_id''),
                     trip_headsign = py_strip (or_str (r ''trip_headsign'') [])\<rparr>
                    (trips idx),
                trips_by_route := append_at rid tid (trips_by_route idx)\<rparr>)"

text \<open>
  The loop over \<^verbatim>\<open>stop_times.txt\<close>: one row. \<^verbatim>\<open>int(row.get("stop_sequence") or 0)\<close> is
  outside any \<^verbatim>\<open>try\<close>: a sequence number that is no integer raises and ends the load.
\<close>

definition load_stop_time_row :: "gtfs_index \<Rightarrow> row \<Rightarrow> py_error + gtfs_index" where
  "load_stop_time_row idx r =
     (if \<not> truthy (r ''trip_id'') \<or> \<not> truthy (r ''stop_id'') then Inr idx
      else
        let tid = the (r ''trip_id''); sid = the (r ''stop_id'');
            departure = hhmmss_to_seconds (or_str (r ''departure_time'') []);
            arrival = hhmmss_to_seconds (or_str (r ''arrival_time'') [])
        in case (if truthy (r ''stop_sequence'') then py_int (the (r ''stop_sequence''))
                 else Some 0) of
             None \<Rightarrow> Inl ValueError
           | Some seq \<Rightarrow>
               Inr (idx\<lparr>stop_times_by_trip :=
                          append_at tid
                            \<lparr>stop_id = sid, stop_sequence = seq, departure_secs = departure,
                             arrival_secs = arrival\<rparr>
                            (stop_times_by_trip idx),
                        departures_by_stop :=
                          append_at sid (tid, departure) (departures_by_stop idx)\<rparr>))"

fun load_stop_times :: "gtfs_index \<Rightarrow> row list \<Rightarrow> py_error + gtfs_index" where
  "load_stop_times idx [] = Inr idx"
| "load_stop_times idx (r # rs) =
     (case load_stop_time_row idx r of
        Inl e \<Rightarrow> Inl e
      | Inr idx' \<Rightarrow> load_stop_times idx' rs)"

text \<open>The two loops that sort every per-trip and per-stop list (a stable sort).\<close>

definition sort_stop_lists :: "gtfs_index \<Rightarrow> gtfs_index" where
  "sort_stop_lists idx =
     idx\<lparr>stop_times_by_trip :=
           map (\<lambda>(tid, items). (tid, sort_key stop_sequence items)) (stop_times_by_trip idx),
         departures_by_stop :=
           map (\<lambda>(sid, items). (sid, sort_key snd items)) (departures_by_stop idx)\<rparr>"

definition load_calendar_row :: "gtfs_index \<Rightarrow> row \<Rightarrow> gtfs_index" where
  "load_calendar_row idx r =
     (if truthy (r ''service_id'')
      then idx\<lparr>calendar := AList.update (the (r ''service_id'')) r (calendar idx)\<rparr>
      else idx)"

definition load_calendar_date_row :: "gtfs_index \<Rightarrow> row \<Rightarrow> gtfs_index" where
  "load_calendar_date_row idx r =
     (if truthy (r ''service_id'') \<and> truthy (r ''date'') \<and> truthy (r ''exception_type'')
      then idx\<lparr>calendar_dates :=
                 append_at (the (r ''date'')) (the (r ''service_id''), the (r ''exception_type''))
                   (calendar_dates idx)\<rparr>
      else idx)"

text \<open>
  The tables of the archive as \<^verbatim>\<open>_iter_csv\<close> yields them (a table the archive lacks is
  empty), and \<^verbatim>\<open>GtfsIndex.__init__\<close> with \<^verbatim>\<open>_load\<close>.
\<close>

record gtfs_tables =
  routes_txt :: "row list"
  stops_txt :: "row list"
  trips_txt :: "row list"
  stop_times_txt :: "row list"
  calendar_txt :: "row list"
  calendar_dates_txt :: "row list"

definition load :: "gtfs_tables \<Rightarrow> py_error + gtfs_index" where
  "load t =
     (let idx1 = foldl load_route_row empty_index (routes_txt t);
          idx2 = foldl load_stop_row idx1 (stops_txt t);
          idx3 = foldl load_trip_row idx2 (trips_txt t)
      in case load_stop_times idx3 (stop_times_txt t) of
           Inl e \<Rightarrow> Inl e
         | Inr idx4 \<Rightarrow>
             let idx5 = sort_stop_lists idx4;
                 idx6 = foldl load_calendar_row idx5 (calendar_txt t)
             in Inr (foldl load_calendar_date_row idx6 (calendar_dates_txt t)))"

subsection \<open>Rows the claims speak about\<close>

text \<open>
  A route row whose \<^verbatim>\<open>route_type\<close> is absent (or empty) or is no integer; a stop-time row
  whose \<^verbatim>\<open>stop_sequence\<close> the load can read; a time string of three colon-separated
  integer fields.
\<close>

definition route_type_unreadable :: "row \<Rightarrow> bool" where
  "route_type_unreadable r =
     (\<not> truthy (r ''route_type'') \<or> py_int (py_strip (the (r ''route_type''))) = None)"

definition sequence_readable :: "row \<Rightarrow> bool" where
  "sequence_readable r =
     (\<not> truthy (r ''stop_sequence'') \<or> py_int (the (r ''stop_sequence'')) \<noteq> None)"

definition three_integer_fields :: "string \<Rightarrow> bool" where
  "three_integer_fields v =
     (case py_split (CHR '':'') v of
        [p0, p1, p2] \<Rightarrow> py_int p0 \<noteq> None \<and> py_int p1 \<noteq> None \<and> py_int p2 \<noteq> None
      | _ \<Rightarrow> False)"

definition stop_time_of_row :: "row \<Rightarrow> StopTime \<Rightarrow> bool" where
  "stop_time_of_row r st =
     (stop_id st = the (r ''stop_id'')
      \<and> departure_secs st = hhmmss_to_seconds (or_str (r ''departure_time'') [])
      \<and> arrival_secs st = hhmmss_to_seconds (or_str (r ''arrival_time'') []))"

text \<open>
  Two small feeds: one whose routes lack a readable \<^verbatim>\<open>route_type\<close>, one with a stop-time
  row whose times are malformed.
\<close>

definition untyped_route :: row where
  "untyped_route = [''route_id'' \<mapsto> ''r1'', ''route_short_name'' \<mapsto> ''6'']"

definition mistyped_route :: row where
  "mistyped_route = [''route_id'' \<mapsto> ''r2'', ''route_type'' \<mapsto> ''tram'']"

definition untyped_routes_feed :: gtfs_tables where
  "untyped_routes_feed =
     \<lparr>routes_txt = [untyped_route, mistyped_route], stops_txt = [], trips_txt = [],
      stop_times_txt = [], calendar_txt = [], calendar_dates_txt = []\<rparr>"

definition malformed_time_row :: row where
  "malformed_time_row =
     [''trip_id'' \<mapsto> ''t1'', ''stop_id'' \<mapsto> ''s1'', ''stop_sequence'' \<mapsto> ''1'',
      ''departure_time'' \<mapsto> ''8h'', ''arrival_time'' \<mapsto> ''08:00'']"

definition malformed_times_feed :: gtfs_tables where
  "malformed_times_feed =
     \<lparr>routes_txt = [], stops_txt = [], trips_txt = [],
      stop_times_txt = [malformed_time_row], calendar_txt = [], calendar_dates_txt = []\<rparr>"

section \<open>Feed metadata\<close>

text \<open>
  \<^verbatim>\<open>FeedMeta\<close> of \<^verbatim>\<open>gtfs_store.py\<close>. The dictionary of \<^verbatim>\<open>to_dict\<close> and \<^verbatim>\<open>from_dict\<close> maps a
  key to a string; a key bound to \<^verbatim>\<open>None\<close> is written as an absent key, which \<^verbatim>\<open>raw.get(k)\<close>
  cannot tell apart (\<^verbatim>\<open>to_dict\<close> binds only the two dates to \<^verbatim>\<open>None\<close>). A date object is
  always true in a test such as \<^verbatim>\<open>if self.start_date\<close>.
\<close>

record FeedMeta =
  version :: string
  start_date :: "date option"
  end_date :: "date option"
  file_path :: string
  source :: string
  downloaded_at :: string

definition is_valid_for :: "FeedMeta \<Rightarrow> date \<Rightarrow> bool" where
  "is_valid_for m day =
     (if start_date m \<noteq> None \<and> day < the (start_date m) then False
      else if end_date m \<noteq> None \<and> day > the (end_date m) then False
      else True)"

definition to_dict :: "FeedMeta \<Rightarrow> (string \<rightharpoonup> string)" where
  "to_dict m =
     [''version'' \<mapsto> version m,
      ''file_path'' \<mapsto> file_path m,
      ''source'' \<mapsto> source m,
      ''downloaded_at'' \<mapsto> downloaded_at m]
     ++ (case start_date m of None \<Rightarrow> Map.empty | Some d \<Rightarrow> [''start_date'' \<mapsto> date_isoformat d])
     ++ (case end_date m of None \<Rightarrow> Map.empty | Some d \<Rightarrow> [''end_date'' \<mapsto> date_isoformat d])"

text \<open>\<^verbatim>\<open>raw.get(k, d)\<close> for a string default.\<close>

definition get_or :: "(string \<rightharpoonup> string) \<Rightarrow> string \<Rightarrow> string \<Rightarrow> string" where
  "get_or raw k d = (case raw k of None \<Rightarrow> d | Some v \<Rightarrow> v)"

text \<open>
  \<^verbatim>\<open>date.fromisoformat(raw[k]) if raw.get(k) else None\<close>: the outer \<open>None\<close> is the
  \<^verbatim>\<open>ValueError\<close> of \<^verbatim>\<open>fromisoformat\<close>.
\<close>

definition date_field :: "(string \<rightharpoonup> string) \<Rightarrow> string \<Rightarrow> date option option" where
  "date_field raw k =
     (if truthy (raw k)
      then (case date_fromisoformat (the (raw k)) of None \<Rightarrow> None | Some d \<Rightarrow> Some (Some d))
      else Some None)"

definition from_dict :: "(string \<rightharpoonup> string) \<Rightarrow> py_error + FeedMeta" where
  "from_dict raw =
     (case date_field raw ''start_date'' of
        None \<Rightarrow> Inl ValueError
      | Some start \<Rightarrow>
          (case date_field raw ''end_date'' of
             None \<Rightarrow> Inl ValueError
           | Some end' \<Rightarrow>
               Inr \<lparr>version = get_or raw ''version'' ''unknown'',
                    start_date = start,
                    end_date = end',
                    file_path = get_or raw ''file_path'' [],
                    source = get_or raw ''source'' ''local'',
                    downloaded_at = get_or raw ''downloaded_at'' []\<rparr>))"

text \<open>The dates of a \<^verbatim>\<open>FeedMeta\<close> are date objects: valid calendar dates.\<close>

definition meta_dates_valid :: "FeedMeta \<Rightarrow> bool" where
  "meta_dates_valid m =
     ((case start_date m of None \<Rightarrow> True | Some d \<Rightarrow> valid_date d)
      \<and> (case end_date m of None \<Rightarrow> True | Some d \<Rightarrow> valid_date d))"

definition march_feed :: FeedMeta where
  "march_feed =
     \<lparr>version = ''000412'', start_date = Some (2024, 3, 1), end_date = Some (2024, 3, 31),
      file_path = ''feeds/000412.zip'', source = ''latest'',
      downloaded_at = ''2024-03-01T04:00:00''\<rparr>"

section \<open>The realtime client\<close>

text \<open>
  \<^verbatim>\<open>RealtimeClient\<close> of \<^verbatim>\<open>realtime.py\<close>. The decoded feed message is a list of entities; an
  entity has a trip update or not; a stop-time update has a departure and an arrival
  event or not, and an event has a delay or not. A moment of the UTC clock is a number
  of microseconds since the epoch.
\<close>

record stop_time_update =
  departure :: "int option option"
  arrival :: "int option option"

record trip_update =
  trip_id :: string
  stop_time_updates :: "stop_time_update list"
  timestamp :: "int option"

type_synonym entity = "trip_update option"

record rt_result =
  status :: string
  last_timestamp :: "string option"
  trip_delays :: "(string \<times> int) list"
  error :: "string option"

record RealtimeClient =
  last_success_utc :: "int option"
  last_result :: rt_result

text \<open>\<^verbatim>\<open>RealtimeClient.__init__\<close>.\<close>

definition new_client :: RealtimeClient where
  "new_client =
     \<lparr>last_success_utc = None,
      last_result = \<lparr>status = ''stale'', last_timestamp = None, trip_delays = [], error = None\<rparr>\<rparr>"

definition REALTIME_DELAY_MAX_STALE_SECONDS :: int where
  "REALTIME_DELAY_MAX_STALE_SECONDS = 300"

text \<open>
  The inner loop over the stop-time updates of one trip: the first delay found, a
  departure delay before an arrival delay, and 0 when there is none.
\<close>

fun first_delay :: "stop_time_update list \<Rightarrow> int" where
  "first_delay [] = 0"
| "first_delay (u # us) =
     (case departure u of
        Some (Some d) \<Rightarrow> d
      | _ \<Rightarrow> (case arrival u of
                Some (Some d) \<Rightarrow> d
              | _ \<Rightarrow> first_delay us))"

text \<open>
  The loop over the entities, with the delays and \<^verbatim>\<open>last_ts\<close> so far.
  \<^verbatim>\<open>max(last_ts or ts, ts)\<close> takes \<^verbatim>\<open>ts\<close> when \<^verbatim>\<open>last_ts\<close> is \<^verbatim>\<open>None\<close> or 0.
\<close>

fun decode_entities ::
  "entity list \<Rightarrow> (string \<times> int) list \<Rightarrow> int option \<Rightarrow> (string \<times> int) list \<times> int option"
where
  "decode_entities [] delays last_ts = (delays, last_ts)"
| "decode_entities (e # es) delays last_ts =
     (case e of
        None \<Rightarrow> decode_entities es delays last_ts
      | Some tu \<Rightarrow>
          if trip_id tu = [] then decode_entities es delays last_ts
          else
            let d = first_delay (stop_time_updates tu);
                last_ts' =
                  (case timestamp tu of
                     None \<Rightarrow> last_ts
                   | Some ts \<Rightarrow>
                       Some (max (case last_ts of
                                    None \<Rightarrow> ts
                                  | Some l \<Rightarrow> if l = 0 then ts else l) ts))
            in decode_entities es (AList.update (trip_id tu) d delays) last_ts')"

text \<open>
  \<^verbatim>\<open>datetime.fromtimestamp(ts, tz=timezone.utc).isoformat()\<close>; \<open>None\<close> when the moment is
  outside the years 1 to 9999 and the library raises. (The field is a \<^verbatim>\<open>uint64\<close>, so only
  the upper bound can be met.)
\<close>

definition utc_isoformat :: "int \<Rightarrow> string option" where
  "utc_isoformat ts =
     (if ts < - 62135596800 \<or> ts > 253402300799 then None
      else
        let secs = ts mod 86400
        in Some (datetime_isoformat
                   (fromordinal (719163 + ts div 86400), secs div 3600,
                    (secs mod 3600) div 60, secs mod 60, 0)
                 @ ''+00:00''))"

text \<open>
  What one call meets inside its \<^verbatim>\<open>try\<close>: the request or the parse raises an exception
  with a message, the call is cancelled (not an \<^verbatim>\<open>Exception\<close>, so nothing catches it
  and the call does not return), or a message is decoded.
\<close>

datatype fetch_outcome = Fetch_failed string | Cancelled | Fetched "entity list"

text \<open>The \<^verbatim>\<open>except\<close> branch of \<^verbatim>\<open>refresh\<close>, at clock reading \<open>now\<close>.\<close>

definition on_failure :: "string \<Rightarrow> int \<Rightarrow> RealtimeClient \<Rightarrow> rt_result option \<times> RealtimeClient" where
  "on_failure msg now c =
     (let keep_trip_delays = trip_delays (last_result c);
          keep_trip_delays' =
            (case last_success_utc c of
               None \<Rightarrow> []
             | Some t \<Rightarrow>
                 if now - t > REALTIME_DELAY_MAX_STALE_SECONDS * 1000000 then []
                 else keep_trip_delays);
          r = \<lparr>status = ''error'', last_timestamp = last_timestamp (last_result c),
               trip_delays = keep_trip_delays', error = Some msg\<rparr>
      in (Some r, c\<lparr>last_result := r\<rparr>))"

text \<open>
  \<^verbatim>\<open>refresh\<close>: \<open>decoder\<close> says whether \<^verbatim>\<open>gtfs_realtime_pb2\<close> was imported, \<open>now\<close> is the
  reading of the UTC clock the call takes. The result is \<open>None\<close> when the call does not
  return. \<^verbatim>\<open>total_seconds() > 300\<close> compares a float; for a whole number of microseconds
  it is the comparison with 300000000 microseconds.
\<close>

definition refresh ::
  "bool \<Rightarrow> fetch_outcome \<Rightarrow> int \<Rightarrow> RealtimeClient \<Rightarrow> rt_result option \<times> RealtimeClient"
where
  "refresh decoder outcome now c =
     (if \<not> decoder
      then
        let r = \<lparr>status = ''error'', last_timestamp = None, trip_delays = [],
                 error = Some ''gtfs_realtime_pb2_unavailable''\<rparr>
        in (Some r, c\<lparr>last_result := r\<rparr>)
      else
        case outcome of
          Cancelled \<Rightarrow> (None, c)
        | Fetch_failed msg \<Rightarrow> on_failure msg now c
        | Fetched entities \<Rightarrow>
            (case decode_entities entities [] None of
               (delays, last_ts) \<Rightarrow>
                 (case (if last_ts = None \<or> last_ts = Some 0 then Some None
                        else map_option Some (utc_isoformat (the last_ts))) of
                    None \<Rightarrow> on_failure ''timestamp out of range'' now c
                  | Some last_iso \<Rightarrow>
                      let r = \<lparr>status = ''ok'', last_timestamp = last_iso,
                               trip_delays = delays, error = None\<rparr>
                      in (Some r, c\<lparr>last_result := r, last_success_utc := Some now\<rparr>))))"

text \<open>
  A call fails when its \<^verbatim>\<open>try\<close> block raises an exception: the request or the parse does,
  or the conversion of the last timestamp does.
\<close>

definition attempt_fails :: "fetch_outcome \<Rightarrow> bool" where
  "attempt_fails outcome =
     (case outcome of
        Fetch_failed msg \<Rightarrow> True
      | Cancelled \<Rightarrow> False
      | Fetched entities \<Rightarrow>
          (case snd (decode_entities entities [] None) of
             None \<Rightarrow> False
           | Some ts \<Rightarrow> ts \<noteq> 0 \<and> utc_isoformat ts = None))"

text \<open>A call completes when it returns; a sequence of calls, each with its outcome and clock.\<close>

definition completes :: "bool \<Rightarrow> fetch_outcome \<times> int \<Rightarrow> bool" where
  "completes decoder call = (\<not> decoder \<or> fst call \<noteq> Cancelled)"

fun refresh_all :: "bool \<Rightarrow> (fetch_outcome \<times> int) list \<Rightarrow> RealtimeClient \<Rightarrow> RealtimeClient" where
  "refresh_all decoder [] c = c"
| "refresh_all decoder (call # calls) c =
     refresh_all decoder calls (snd (refresh decoder (fst call) (snd call) c))"

definition sample_message :: "entity list" where
  "sample_message =
     [Some \<lparr>trip_id = ''t1'',
            stop_time_updates = [\<lparr>departure = None, arrival = Some (Some 60)\<rparr>,
                                 \<lparr>departure = Some (Some 120), arrival = None\<rparr>],
            timestamp = Some 1709280000\<rparr>,
      None]"

text \<open>A client whose reported status is "ok" or "error"; a client after one good fetch.\<close>

definition settled :: "RealtimeClient \<Rightarrow> bool" where
  "settled c = (status (last_result c) = ''ok'' \<or> status (last_result c) = ''error'')"

definition client_after_success :: RealtimeClient where
  "client_after_success = snd (refresh True (Fetched sample_message) 1709280000000000 new_client)"

section \<open>The feed store: the previous feed from the listing pages\<close>

text \<open>
  \<^verbatim>\<open>_safe_version\<close> and \<^verbatim>\<open>_meta_rank\<close> of \<^verbatim>\<open>gtfs_store.py\<close>. \<^verbatim>\<open>str.isdigit\<close> holds for a
  string that is not empty and whose characters are digits, which among the code points
  up to 255 are the ASCII digits and the superscripts two, three and one; \<^verbatim>\<open>int\<close> reads
  only the ASCII digits, so \<^verbatim>\<open>_meta_rank\<close> can raise.
\<close>

definition safe_char :: "char \<Rightarrow> bool" where
  "safe_char c =
     (let n = (of_char c :: int)
      in (97 \<le> n \<and> n \<le> 122) \<or> (65 \<le> n \<and> n \<le> 90) \<or> (48 \<le> n \<and> n \<le> 57)
         \<or> c = CHR ''_'' \<or> c = CHR ''.'' \<or> c = CHR ''-'')"

definition safe_version :: "string \<Rightarrow> string" where
  "safe_version v = map (\<lambda>c. if safe_char c then c else CHR ''_'') v"

definition str_isdigit :: "string \<Rightarrow> bool" where
  "str_isdigit s =
     (s \<noteq> [] \<and> (\<forall>c \<in> set s. is_digit c \<or> (of_char c :: int) \<in> {178, 179, 185}))"

definition meta_rank :: "FeedMeta \<Rightarrow> py_error + (int \<times> date)" where
  "meta_rank m =
     (let start_rank = (case start_date m of None \<Rightarrow> date_min | Some d \<Rightarrow> d)
      in if str_isdigit (version m)
         then (case py_int (version m) of
                 None \<Rightarrow> Inl ValueError
               | Some n \<Rightarrow> Inr (n, start_rank))
         else Inr (- 1, start_rank))"






text \<open>
  \<^verbatim>\<open>refresh_previous_from_listing\<close>. The network is a pair of functions: \<open>listing page\<close> is
  the list of candidates \<^verbatim>\<open>_extract_listing_candidates\<close> finds in the page, or \<open>None\<close> when
  fetching the page raises; \<open>download url\<close> is the \<^verbatim>\<open>FeedMeta\<close> that \<^verbatim>\<open>refresh_from_url\<close>
  returns for the address, or \<open>None\<close> when it raises. The files that a download writes and
  the \<^verbatim>\<open>debug\<close> dictionary are left out. First the loop over the candidates of one page,
  then the loop over the pages.
\<close>

fun add_candidates :: "string list \<Rightarrow> string list \<Rightarrow> string list" where
  "add_candidates [] all_candidates = all_candidates"
| "add_candidates (c # cs) all_candidates =
     (if c \<in> set all_candidates then add_candidates cs all_candidates
      else add_candidates cs (all_candidates @ [c]))"

fun collect_candidates ::
  "(string \<Rightarrow> string list option) \<Rightarrow> string list \<Rightarrow> string list \<Rightarrow> string list" where
  "collect_candidates listing [] all_candidates = all_candidates"
| "collect_candidates listing (page_url # pages) all_candidates =
     (case listing page_url of
        None \<Rightarrow> collect_candidates listing pages all_candidates
      | Some candidates \<Rightarrow>
          collect_candidates listing pages (add_candidates candidates all_candidates))"





definition rankable :: "FeedMeta \<Rightarrow> bool" where
  "rankable m = (\<exists>k. meta_rank m = Inr k)"






section \<open>Active services of a day\<close>

text \<open>
  \<^verbatim>\<open>_active_services_for_day\<close>. \<open>in_calendar\<close> is the body of the loop over the calendar
  rows, \<open>apply_exceptions\<close> the loop over the exceptions of the day; \<open>services_on\<close> is the
  content of the local set \<^verbatim>\<open>services\<close> when both loops are done.
\<close>

definition WEEKDAY_MAP :: "int \<Rightarrow> string" where
  "WEEKDAY_MAP n =
     (if n = 0 then ''monday'' else if n = 1 then ''tuesday'' else if n = 2 then ''wednesday''
      else if n = 3 then ''thursday'' else if n = 4 then ''friday''
      else if n = 5 then ''saturday'' else ''sunday'')"

definition in_calendar :: "date \<Rightarrow> row \<Rightarrow> bool" where
  "in_calendar day r =
     (let start = yyyymmdd_to_date (r ''start_date'');
          end' = yyyymmdd_to_date (r ''end_date'')
      in if start \<noteq> None \<and> day < the start then False
         else if end' \<noteq> None \<and> day > the end' then False
         else r (WEEKDAY_MAP (weekday day)) = Some ''1'')"

definition weekly_services :: "(string \<times> row) list \<Rightarrow> date \<Rightarrow> string set" where
  "weekly_services cal day =
     foldl (\<lambda>services (sid, r). if in_calendar day r then insert sid services else services)
       {} cal"

definition apply_exceptions :: "string set \<Rightarrow> (string \<times> string) list \<Rightarrow> string set" where
  "apply_exceptions services0 excs =
     foldl (\<lambda>services (sid, exception_type).
              if exception_type = ''1'' then insert sid services
              else if exception_type = ''2'' then services - {sid}
              else services)
       services0 excs"

definition services_on :: "gtfs_index \<Rightarrow> date \<Rightarrow> string set" where
  "services_on idx day =
     apply_exceptions (weekly_services (calendar idx) day)
       (get_list (calendar_dates idx) (strftime_Ymd day))"

text \<open>A new set object with the given content: \<^verbatim>\<open>set()\<close> once filled, or \<^verbatim>\<open>set(other)\<close>.\<close>

definition alloc_set :: "string set \<Rightarrow> gtfs_index \<Rightarrow> nat \<times> gtfs_index" where
  "alloc_set content idx =
     (next_ref idx,
      idx\<lparr>set_store := (set_store idx)(next_ref idx := content),
          next_ref := Suc (next_ref idx)\<rparr>)"

text \<open>
  The cache after \<^verbatim>\<open>self._active_services_cache[day] = ...\<close>: with more than eight days
  it is rebuilt from the eight greatest days, in ascending order.
\<close>

definition prune_cache :: "(date \<times> nat) list \<Rightarrow> (date \<times> nat) list" where
  "prune_cache cache =
     (if length cache > 8
      then
        let days = sort (map fst cache);
            newest_days = drop (length days - 8) days
        in map (\<lambda>k. (k, the (map_of cache k))) newest_days
      else cache)"

text \<open>
  The function returns a reference to a set object. On a hit the object is a new copy of
  the cached one; on a miss the local set is returned and a new copy of it is cached.
\<close>

definition active_services_for_day :: "gtfs_index \<Rightarrow> date \<Rightarrow> nat \<times> gtfs_index" where
  "active_services_for_day idx day =
     (case map_of (active_services_cache idx) day of
        Some cached \<Rightarrow> alloc_set (set_store idx cached) idx
      | None \<Rightarrow>
          let (services, idx1) = alloc_set (services_on idx day) idx;
              (copy, idx2) = alloc_set (set_store idx1 services) idx1
          in (services,
              idx2\<lparr>active_services_cache :=
                     prune_cache (AList.update day copy (active_services_cache idx2))\<rparr>))"

text \<open>What a caller can do to a set it was handed: replace its content.\<close>

definition mutate_set :: "nat \<Rightarrow> string set \<Rightarrow> gtfs_index \<Rightarrow> gtfs_index" where
  "mutate_set r content idx = idx\<lparr>set_store := (set_store idx)(r := content)\<rparr>"

text \<open>Every reference in the cache is to an object that exists.\<close>

definition cache_refs_allocated :: "gtfs_index \<Rightarrow> bool" where
  "cache_refs_allocated idx = (\<forall>r \<in> snd ` set (active_services_cache idx). r < next_ref idx)"

section \<open>Departure queries\<close>











subsection \<open>The station board\<close>

text \<open>
  An entry of the board. The source stores \<^verbatim>\<open>round(delay_seconds / 60, 1)\<close>, a float,
  under \<^verbatim>\<open>delay_minutes\<close>; the record keeps the integer it is computed from.
\<close>

record board_entry =
  trip_id :: string
  route :: string
  direction :: string
  mode :: string
  planned :: string
  rt :: string
  delay_seconds :: int





subsection \<open>Departures from one stop to another on a route\<close>

record od_row =
  trip_id :: string
  route :: string
  direction :: string
  from_stop :: string
  to_stop :: string
  departure_planned :: string
  departure_rt :: string
  arrival_planned :: string
  arrival_rt :: string
  delay_seconds :: int






subsection \<open>A small feed\<close>

text \<open>
  One tram route with two trips from the first stop to the second, a service that runs
  every day of 2024 except on the second of March, and a morning of the first of March.
\<close>

definition every_day :: row where
  "every_day =
     [''service_id'' \<mapsto> ''wk'', ''monday'' \<mapsto> ''1'', ''tuesday'' \<mapsto> ''1'', ''wednesday'' \<mapsto> ''1'',
      ''thursday'' \<mapsto> ''1'', ''friday'' \<mapsto> ''1'', ''saturday'' \<mapsto> ''1'', ''sunday'' \<mapsto> ''1'',
      ''start_date'' \<mapsto> ''20240101'', ''end_date'' \<mapsto> ''20241231'']"

definition stop_time_row :: "string \<Rightarrow> string \<Rightarrow> string \<Rightarrow> string \<Rightarrow> row" where
  "stop_time_row tid sid seq time =
     [''trip_id'' \<mapsto> tid, ''stop_id'' \<mapsto> sid, ''stop_sequence'' \<mapsto> seq,
      ''departure_time'' \<mapsto> time, ''arrival_time'' \<mapsto> time]"

definition small_feed :: gtfs_tables where
  "small_feed =
     \<lparr>routes_txt = [[''route_id'' \<mapsto> ''r6'', ''route_short_name'' \<mapsto> ''6'',
                     ''route_long_name'' \<mapsto> ''Sopot'', ''route_type'' \<mapsto> ''0'']],
      stops_txt = [[''stop_id'' \<mapsto> ''s1'', ''stop_name'' \<mapsto> ''Kolodvor''],
                   [''stop_id'' \<mapsto> ''s2'', ''stop_name'' \<mapsto> ''Sopot'']],
      trips_txt = [[''trip_id'' \<mapsto> ''t1'', ''route_id'' \<mapsto> ''r6'', ''service_id'' \<mapsto> ''wk'',
                    ''trip_headsign'' \<mapsto> ''Sopot''],
                   [''trip_id'' \<mapsto> ''t2'', ''route_id'' \<mapsto> ''r6'', ''service_id'' \<mapsto> ''wk'',
                    ''trip_headsign'' \<mapsto> ''Sopot'']],
      stop_times_txt = [stop_time_row ''t1'' ''s1'' ''1'' ''08:00:00'',
                        stop_time_row ''t1'' ''s2'' ''2'' ''08:10:00'',
                        stop_time_row ''t2'' ''s1'' ''1'' ''08:20:00'',
                        stop_time_row ''t2'' ''s2'' ''2'' ''08:30:00''],
      calendar_txt = [every_day],
      calendar_dates_txt = [[''service_id'' \<mapsto> ''wk'', ''date'' \<mapsto> ''20240302'',
                             ''exception_type'' \<mapsto> ''2'']]\<rparr>"

definition small_index :: gtfs_index where
  "small_index = (case load small_feed of Inl e \<Rightarrow> empty_index | Inr idx \<Rightarrow> idx)"



section \<open>Properties\<close>

text \<open>
  C7. The mode classification maps route type 0 to "tram", 3 to "bus", 900 to "tram",
  715 to "bus" and 5 to "other".
\<close>

theorem route_mode_table:
  "route_mode (Some 0) = ''tram'' \<and> route_mode (Some 3) = ''bus'' \<and>
   route_mode (Some 900) = ''tram'' \<and> route_mode (Some 715) = ''bus'' \<and>
   route_mode (Some 5) = ''other''"
  by (simp add: route_mode_def)

subsection \<open>The load keeps going on unreadable fields\<close>

lemma py_int_3: "py_int (py_strip ''3'') = Some 3"
  by code_simp

lemma load_route_row_unreadable:
  assumes "truthy (r ''route_id'')" "route_type_unreadable r"
  shows "map_of (route_types (load_route_row idx r)) (the (r ''route_id'')) = Some 3"
  using assms
  by (auto simp: load_route_row_def route_type_unreadable_def Let_def update_conv' or_str_def
      truthy_def py_int_3 split: option.splits)

lemma load_route_row_other:
  assumes "r ''route_id'' \<noteq> Some rid"
  shows "map_of (route_types (load_route_row idx r)) rid = map_of (route_types idx) rid"
  using assms
  by (auto simp: load_route_row_def Let_def update_conv' truthy_def split: option.splits)

lemma foldl_load_route_row_other:
  assumes "\<forall>r \<in> set rs. r ''route_id'' \<noteq> Some rid"
  shows "map_of (route_types (foldl load_route_row idx rs)) rid = map_of (route_types idx) rid"
  using assms by (induction rs arbitrary: idx) (simp_all add: load_route_row_other)

lemma route_types_load_stop_row [simp]: "route_types (load_stop_row idx r) = route_types idx"
  by (simp add: load_stop_row_def Let_def)
lemma route_types_load_trip_row [simp]: "route_types (load_trip_row idx r) = route_types idx"
  by (simp add: load_trip_row_def Let_def)
lemma route_types_load_calendar_row [simp]: "route_types (load_calendar_row idx r) = route_types idx"
  by (simp add: load_calendar_row_def)
lemma route_types_load_calendar_date_row [simp]:
  "route_types (load_calendar_date_row idx r) = route_types idx"
  by (simp add: load_calendar_date_row_def)
lemma route_types_sort_stop_lists [simp]: "route_types (sort_stop_lists idx) = route_types idx"
  by (simp add: sort_stop_lists_def)

lemma route_types_foldl:
  assumes "\<And>i r. route_types (f i r) = route_types i"
  shows "route_types (foldl f idx rs) = route_types idx"
  by (induction rs arbitrary: idx) (simp_all add: assms)

lemma load_stop_time_row_readable:
  assumes "sequence_readable r"
  shows "\<exists>idx'. load_stop_time_row idx r = Inr idx' \<and> route_types idx' = route_types idx"
  using assms
  by (auto simp: load_stop_time_row_def sequence_readable_def Let_def split: option.splits)

lemma load_stop_times_readable:
  assumes "\<forall>r \<in> set rs. sequence_readable r"
  shows "\<exists>idx'. load_stop_times idx rs = Inr idx' \<and> route_types idx' = route_types idx"
  using assms
proof (induction rs arbitrary: idx)
  case Nil
  then show ?case by simp
next
  case (Cons r rs)
  then obtain i where i: "load_stop_time_row idx r = Inr i" "route_types i = route_types idx"
    using load_stop_time_row_readable[of r idx] by auto
  from Cons obtain j where "load_stop_times i rs = Inr j" "route_types j = route_types i"
    by fastforce
  with i show ?case by simp
qed

text \<open>
  C2 (as amended). When a route row has a route id and its \<^verbatim>\<open>route_type\<close> is absent or is
  no integer, the load stores route type 3 for that route, so its mode is "bus" (not
  "other"), and the load goes on: with readable stop sequences it ends with an index in
  which the route (if no later row redefines it) has type 3.
\<close>

theorem route_type_defaults_to_bus:
  assumes rows: "routes_txt t = earlier @ r # later"
    and rid: "truthy (r ''route_id'')"
    and bad: "route_type_unreadable r"
    and last: "\<forall>r' \<in> set later. r' ''route_id'' \<noteq> r ''route_id''"
    and seqs: "\<forall>x \<in> set (stop_times_txt t). sequence_readable x"
  shows "\<exists>idx. load t = Inr idx
           \<and> map_of (route_types idx) (the (r ''route_id'')) = Some 3
           \<and> route_mode (map_of (route_types idx) (the (r ''route_id''))) = ''bus''"
proof -
  obtain rid where rsome: "r ''route_id'' = Some rid"
    using rid by (auto simp: truthy_def split: option.splits)
  define idx1 where "idx1 = foldl load_route_row empty_index (routes_txt t)"
  define idx3 where
    "idx3 = foldl load_trip_row (foldl load_stop_row idx1 (stops_txt t)) (trips_txt t)"
  have later: "\<forall>r' \<in> set later. r' ''route_id'' \<noteq> Some rid"
    using last rsome by simp
  have "map_of (route_types (load_route_row (foldl load_route_row empty_index earlier) r)) rid
          = Some 3"
    using load_route_row_unreadable[OF rid bad] rsome by simp
  then have one: "map_of (route_types idx1) rid = Some 3"
    unfolding idx1_def rows by (simp add: foldl_load_route_row_other[OF later])
  have three: "route_types idx3 = route_types idx1"
    by (simp add: idx3_def route_types_foldl)
  obtain idx4 where i4: "load_stop_times idx3 (stop_times_txt t) = Inr idx4"
      "route_types idx4 = route_types idx3"
    using load_stop_times_readable[OF seqs] by blast
  define idx7 where "idx7 = foldl load_calendar_date_row
        (foldl load_calendar_row (sort_stop_lists idx4) (calendar_txt t)) (calendar_dates_txt t)"
  have "load t = Inr idx7"
    using i4(1) by (simp add: load_def Let_def idx1_def idx3_def idx7_def)
  moreover have "route_types idx7 = route_types idx4"
    by (simp add: idx7_def route_types_foldl)
  ultimately show ?thesis
    using one three i4(2) rsome by (simp add: route_mode_def)
qed

theorem route_type_defaults_to_bus_witness:
  "\<exists>idx. load untyped_routes_feed = Inr idx
     \<and> map_of (route_types idx) ''r2'' = Some 3
     \<and> route_mode (map_of (route_types idx) ''r2'') = ''bus''"
proof -
  have r: "truthy (mistyped_route ''route_id'')" "the (mistyped_route ''route_id'') = ''r2''"
    by (simp_all add: mistyped_route_def truthy_def)
  have "py_int (py_strip ''tram'') = None"
    by code_simp
  then have bad: "route_type_unreadable mistyped_route"
    by (simp add: route_type_unreadable_def mistyped_route_def)
  show ?thesis
    using route_type_defaults_to_bus[of untyped_routes_feed "[untyped_route]" mistyped_route "[]",
        OF _ r(1) bad]
    by (simp add: untyped_routes_feed_def r(2))
qed

text \<open>
  C2 as stated fails: for a route row without \<^verbatim>\<open>route_type\<close> the stored type is 3, not
  missing, and the mode is "bus", not "other".
\<close>

theorem route_type_missing_counterexample:
  "case load untyped_routes_feed of
     Inl e \<Rightarrow> False
   | Inr idx \<Rightarrow>
       map_of (route_types idx) ''r1'' = Some 3
       \<and> route_mode (map_of (route_types idx) ''r1'') = ''bus''
       \<and> route_mode (map_of (route_types idx) ''r1'') \<noteq> ''other''"
  by code_simp

subsection \<open>Stop-time rows with malformed times\<close>

lemma hhmmss_malformed: "\<not> three_integer_fields v \<Longrightarrow> hhmmss_to_seconds v = 0"
  by (auto simp: three_integer_fields_def hhmmss_to_seconds_def split: list.splits option.splits)

lemma get_list_append_at:
  "get_list (append_at k x d) k' = (if k = k' then get_list d k @ [x] else get_list d k')"
  by (simp add: get_list_def append_at_def update_conv')

lemma get_list_map_values:
  assumes "f [] = []"
  shows "get_list (map (\<lambda>(k, v). (k, f v)) d) k = f (get_list d k)"
  using assms by (induction d) (auto simp: get_list_def)

lemma load_stop_time_row_adds:
  assumes "load_stop_time_row idx r = Inr idx'" "truthy (r ''trip_id'')" "truthy (r ''stop_id'')"
  shows "\<exists>st \<in> set (get_list (stop_times_by_trip idx') (the (r ''trip_id''))). stop_time_of_row r st"
    and "(the (r ''trip_id''), hhmmss_to_seconds (or_str (r ''departure_time'') []))
           \<in> set (get_list (departures_by_stop idx') (the (r ''stop_id'')))"
  using assms
  by (auto simp: load_stop_time_row_def Let_def get_list_append_at stop_time_of_row_def
      split: option.splits if_splits)

lemma load_stop_time_row_keeps:
  assumes "load_stop_time_row idx r = Inr idx'"
  shows "set (get_list (stop_times_by_trip idx) t) \<subseteq> set (get_list (stop_times_by_trip idx') t)"
    and "set (get_list (departures_by_stop idx) s) \<subseteq> set (get_list (departures_by_stop idx') s)"
  using assms
  by (auto simp: load_stop_time_row_def Let_def get_list_append_at
      split: option.splits if_splits)

lemma load_stop_times_keeps:
  assumes "load_stop_times idx rs = Inr idx'"
  shows "set (get_list (stop_times_by_trip idx) t) \<subseteq> set (get_list (stop_times_by_trip idx') t)"
    and "set (get_list (departures_by_stop idx) s) \<subseteq> set (get_list (departures_by_stop idx') s)"
  using assms
proof (induction rs arbitrary: idx)
  case Nil
  { case 1 then show ?case by simp }
  { case 2 then show ?case by simp }
next
  case (Cons r rs)
  { case 1
    then obtain i where i: "load_stop_time_row idx r = Inr i" "load_stop_times i rs = Inr idx'"
      by (auto split: sum.splits)
    show ?case using load_stop_time_row_keeps(1)[OF i(1)] Cons.IH(1)[OF i(2)] by blast }
  { case 2
    then obtain i where i: "load_stop_time_row idx r = Inr i" "load_stop_times i rs = Inr idx'"
      by (auto split: sum.splits)
    show ?case using load_stop_time_row_keeps(2)[OF i(1)] Cons.IH(2)[OF i(2)] by blast }
qed

lemma load_stop_times_adds:
  assumes "load_stop_times idx rs = Inr idx'" "r \<in> set rs"
    "truthy (r ''trip_id'')" "truthy (r ''stop_id'')"
  shows "\<exists>st \<in> set (get_list (stop_times_by_trip idx') (the (r ''trip_id''))). stop_time_of_row r st"
    and "(the (r ''trip_id''), hhmmss_to_seconds (or_str (r ''departure_time'') []))
           \<in> set (get_list (departures_by_stop idx') (the (r ''stop_id'')))"
  using assms(1,2)
proof (induction rs arbitrary: idx)
  case Nil
  { case 1 then show ?case by simp }
  { case 2 then show ?case by simp }
next
  case (Cons x rs)
  { case 1
    then obtain i where i: "load_stop_time_row idx x = Inr i" "load_stop_times i rs = Inr idx'"
      by (auto split: sum.splits)
    show ?case
    proof (cases "r = x")
      case True
      then show ?thesis
        using load_stop_time_row_adds(1)[OF _ assms(3,4), of idx i] i load_stop_times_keeps(1)[OF i(2)]
        by blast
    next
      case False
      then show ?thesis using Cons.IH(1)[OF i(2)] "1.prems" by simp
    qed }
  { case 2
    then obtain i where i: "load_stop_time_row idx x = Inr i" "load_stop_times i rs = Inr idx'"
      by (auto split: sum.splits)
    show ?case
    proof (cases "r = x")
      case True
      then show ?thesis
        using load_stop_time_row_adds(2)[OF _ assms(3,4), of idx i] i load_stop_times_keeps(2)[OF i(2)]
        by blast
    next
      case False
      then show ?thesis using Cons.IH(2)[OF i(2)] "2.prems" by simp
    qed }
qed

lemma stop_lists_foldl:
  assumes "\<And>i r. stop_times_by_trip (f i r) = stop_times_by_trip i"
    and "\<And>i r. departures_by_stop (f i r) = departures_by_stop i"
  shows "stop_times_by_trip (foldl f idx rs) = stop_times_by_trip idx"
    and "departures_by_stop (foldl f idx rs) = departures_by_stop idx"
  by (induction rs arbitrary: idx) (simp_all add: assms)

lemma stop_lists_sorted_sets:
  "set (get_list (stop_times_by_trip (sort_stop_lists idx)) t) = set (get_list (stop_times_by_trip idx) t)"
  "set (get_list (departures_by_stop (sort_stop_lists idx)) s) = set (get_list (departures_by_stop idx) s)"
  by (simp_all add: sort_stop_lists_def get_list_map_values)

text \<open>
  C10. In a load that completes, a stop-time row with a trip id and a stop id is indexed
  whatever its time strings are: the trip's list holds its stop time and the stop's list
  holds its departure, and a departure or arrival string that is not three
  colon-separated integer fields is stored as 0 seconds.
\<close>

theorem malformed_time_row_is_indexed:
  assumes ld: "load t = Inr idx"
    and row: "r \<in> set (stop_times_txt t)"
    and ids: "truthy (r ''trip_id'')" "truthy (r ''stop_id'')"
  shows "(\<exists>st \<in> set (get_list (stop_times_by_trip idx) (the (r ''trip_id''))).
            stop_id st = the (r ''stop_id'')
            \<and> departure_secs st = hhmmss_to_seconds (or_str (r ''departure_time'') [])
            \<and> arrival_secs st = hhmmss_to_seconds (or_str (r ''arrival_time'') [])
            \<and> (\<not> three_integer_fields (or_str (r ''departure_time'') []) \<longrightarrow> departure_secs st = 0)
            \<and> (\<not> three_integer_fields (or_str (r ''arrival_time'') []) \<longrightarrow> arrival_secs st = 0))
       \<and> (the (r ''trip_id''), hhmmss_to_seconds (or_str (r ''departure_time'') []))
            \<in> set (get_list (departures_by_stop idx) (the (r ''stop_id'')))
       \<and> (\<not> three_integer_fields (or_str (r ''departure_time'') []) \<longrightarrow>
            (the (r ''trip_id''), 0) \<in> set (get_list (departures_by_stop idx) (the (r ''stop_id''))))"
proof -
  define idx3 where "idx3 = foldl load_trip_row
      (foldl load_stop_row (foldl load_route_row empty_index (routes_txt t)) (stops_txt t)) (trips_txt t)"
  obtain idx4 where i4: "load_stop_times idx3 (stop_times_txt t) = Inr idx4"
    and idx: "idx = foldl load_calendar_date_row
        (foldl load_calendar_row (sort_stop_lists idx4) (calendar_txt t)) (calendar_dates_txt t)"
    using ld by (auto simp: load_def Let_def idx3_def split: sum.splits)
  have a: "stop_times_by_trip idx = stop_times_by_trip (sort_stop_lists idx4)"
    and b: "departures_by_stop idx = departures_by_stop (sort_stop_lists idx4)"
    unfolding idx
    by (simp_all add: stop_lists_foldl load_calendar_row_def load_calendar_date_row_def)
  from load_stop_times_adds[OF i4 row ids]
  have "\<exists>st \<in> set (get_list (stop_times_by_trip idx) (the (r ''trip_id''))). stop_time_of_row r st"
    and "(the (r ''trip_id''), hhmmss_to_seconds (or_str (r ''departure_time'') []))
           \<in> set (get_list (departures_by_stop idx) (the (r ''stop_id'')))"
    by (simp_all add: a b stop_lists_sorted_sets)
  then show ?thesis
    by (auto simp: stop_time_of_row_def hhmmss_malformed)
qed

theorem malformed_time_row_is_indexed_witness:
  "\<exists>idx. load malformed_times_feed = Inr idx
     \<and> (''t1'', 0) \<in> set (get_list (departures_by_stop idx) ''s1'')
     \<and> (\<exists>st \<in> set (get_list (stop_times_by_trip idx) ''t1'').
           stop_id st = ''s1'' \<and> departure_secs st = 0 \<and> arrival_secs st = 0)"
proof -
  have "case load malformed_times_feed of Inl e \<Rightarrow> False | Inr idx \<Rightarrow> True"
    by code_simp
  then obtain idx where ld: "load malformed_times_feed = Inr idx"
    by (auto split: sum.splits)
  have row: "malformed_time_row \<in> set (stop_times_txt malformed_times_feed)"
    by (simp add: malformed_times_feed_def)
  have ids: "truthy (malformed_time_row ''trip_id'')" "truthy (malformed_time_row ''stop_id'')"
    by (simp_all add: malformed_time_row_def truthy_def)
  have bad: "\<not> three_integer_fields (or_str (malformed_time_row ''departure_time'') [])"
    "\<not> three_integer_fields (or_str (malformed_time_row ''arrival_time'') [])"
    by code_simp+
  have vals: "the (malformed_time_row ''trip_id'') = ''t1''"
    "the (malformed_time_row ''stop_id'') = ''s1''"
    by (simp_all add: malformed_time_row_def)
  show ?thesis
    using malformed_time_row_is_indexed[OF ld row ids] bad ld
    unfolding vals by auto
qed

subsection \<open>Feed metadata: validity and the dictionary round trip\<close>

lemma length_fixed_dec [simp]: "length (fixed_dec w n) = w"
  by (induction w arbitrary: n) simp_all

lemma read_dec_acc_append:
  "read_dec_acc acc (xs @ ys) =
     (case read_dec_acc acc xs of None \<Rightarrow> None | Some a \<Rightarrow> read_dec_acc a ys)"
  by (induction xs arbitrary: acc) simp_all

lemma digit_char_digit:
  fixes k :: int
  assumes "0 \<le> k" "k < 10"
  shows "is_digit (digit_char k)" "digit_val (digit_char k) = k"
proof -
  have "k = 0 \<or> k = 1 \<or> k = 2 \<or> k = 3 \<or> k = 4 \<or> k = 5 \<or> k = 6 \<or> k = 7 \<or> k = 8 \<or> k = 9"
    using assms by arith
  then show "is_digit (digit_char k)" "digit_val (digit_char k) = k"
    by (auto simp: digit_char_def is_digit_def digit_val_def)
qed

lemma read_dec_acc_fixed_dec:
  assumes "0 \<le> n"
  shows "read_dec_acc acc (fixed_dec w n) = Some (acc * 10 ^ w + n mod 10 ^ w)"
  using assms
proof (induction w arbitrary: n acc)
  case 0
  then show ?case by simp
next
  case (Suc w)
  have "n mod (10 * 10 ^ w) = 10 * (n div 10 mod 10 ^ w) + n mod 10"
    by (rule zmod_zmult2_eq) simp
  moreover have "0 \<le> n div 10" "0 \<le> n mod 10" "n mod 10 < 10"
    using Suc.prems by simp_all
  ultimately show ?case
    by (simp add: read_dec_acc_append Suc.IH digit_char_digit algebra_simps)
qed

lemma read_dec_fixed_dec:
  assumes "0 < w" "0 \<le> n" "n < 10 ^ w"
  shows "read_dec (fixed_dec w n) = Some n"
proof -
  have "fixed_dec w n \<noteq> []"
    using assms(1) by (cases w) simp_all
  then show ?thesis
    using assms(2,3) by (simp add: read_dec_def read_dec_acc_fixed_dec)
qed

lemma days_in_month_le: "days_in_month y m \<le> 31"
  by (simp add: days_in_month_def)

lemma date_fromisoformat_isoformat:
  assumes "valid_date d"
  shows "date_fromisoformat (date_isoformat d) = Some d"
proof -
  obtain y m dd where d: "d = (y, m, dd)"
    by (cases d) auto
  have b: "1 \<le> y" "y \<le> 9999" "1 \<le> m" "m \<le> 12" "1 \<le> dd" "dd \<le> 31"
    using assms days_in_month_le[of y m] by (auto simp: valid_date_def d)
  have ry: "read_dec (fixed_dec 4 y) = Some y"
    and rm: "read_dec (fixed_dec 2 m) = Some m"
    and rd: "read_dec (fixed_dec 2 dd) = Some dd"
    using b by (auto intro!: read_dec_fixed_dec)
  have "mk_date y m dd = Some d"
    using assms by (simp add: mk_date_def d)
  then show ?thesis
    by (simp add: date_fromisoformat_def date_isoformat_def d nth_append ry rm rd
        del: fixed_dec.simps)
qed

lemma fixed_dec_nonempty: "0 < w \<Longrightarrow> fixed_dec w n \<noteq> []"
  by (cases w) simp_all

lemma date_isoformat_nonempty: "date_isoformat d \<noteq> []"
  by (cases d) (simp add: date_isoformat_def)

lemma from_dict_to_dict:
  assumes "meta_dates_valid m"
  shows "from_dict (to_dict m) = Inr m"
proof -
  have s: "date_field (to_dict m) ''start_date'' = Some (start_date m)"
    using assms
    by (auto simp: date_field_def to_dict_def truthy_def meta_dates_valid_def map_add_def
        date_isoformat_nonempty date_fromisoformat_isoformat split: option.splits)
  have e: "date_field (to_dict m) ''end_date'' = Some (end_date m)"
    using assms
    by (auto simp: date_field_def to_dict_def truthy_def meta_dates_valid_def map_add_def
        date_isoformat_nonempty date_fromisoformat_isoformat split: option.splits)
  have g: "get_or (to_dict m) ''version'' d1 = version m"
    "get_or (to_dict m) ''file_path'' d2 = file_path m"
    "get_or (to_dict m) ''source'' d3 = source m"
    "get_or (to_dict m) ''downloaded_at'' d4 = downloaded_at m" for d1 d2 d3 d4
    by (auto simp: get_or_def to_dict_def map_add_def split: option.splits)
  show ?thesis
    by (simp add: from_dict_def s e g)
qed

lemma window_test_iff:
  fixes d :: "'a::linorder"
  shows "(if s \<noteq> None \<and> d < the s then False
          else if e \<noteq> None \<and> d > the e then False else True)
         \<longleftrightarrow> (s = None \<or> the s \<le> d) \<and> (e = None \<or> d \<le> the e)"
  by (auto simp: not_less)

lemma is_valid_for_iff:
  "is_valid_for m d \<longleftrightarrow>
     (start_date m = None \<or> the (start_date m) \<le> d) \<and> (end_date m = None \<or> d \<le> the (end_date m))"
  unfolding is_valid_for_def by (rule window_test_iff)

text \<open>
  C6. A \<^verbatim>\<open>FeedMeta\<close> written by \<^verbatim>\<open>to_dict\<close> and rebuilt by \<^verbatim>\<open>from_dict\<close> answers
  \<^verbatim>\<open>is_valid_for\<close> as the original does, for every date; and \<^verbatim>\<open>is_valid_for\<close> holds for a
  date exactly when the start date is absent or not after it and the end date is absent or
  not before it.
\<close>

theorem feed_meta_round_trip:
  "(meta_dates_valid m \<longrightarrow>
      (\<exists>m'. from_dict (to_dict m) = Inr m' \<and> (\<forall>d. is_valid_for m' d = is_valid_for m d)))
   \<and> (\<forall>d. is_valid_for m d \<longleftrightarrow>
        (start_date m = None \<or> the (start_date m) \<le> d)
        \<and> (end_date m = None \<or> d \<le> the (end_date m)))"
  using from_dict_to_dict[of m] is_valid_for_iff[of m] by auto

theorem feed_meta_round_trip_witness:
  "(\<exists>m'. from_dict (to_dict march_feed) = Inr m'
      \<and> (\<forall>d. is_valid_for m' d = is_valid_for march_feed d))
   \<and> is_valid_for march_feed (2024, 3, 15)
   \<and> \<not> is_valid_for march_feed (2024, 4, 1)"
proof -
  have v: "meta_dates_valid march_feed"
    by code_simp
  have a: "is_valid_for march_feed (2024, 3, 15)" and b: "\<not> is_valid_for march_feed (2024, 4, 1)"
    by code_simp+
  show ?thesis
    using feed_meta_round_trip[of march_feed] v a b by blast
qed

subsection \<open>The realtime client after a failed refresh\<close>

lemma on_failure_result:
  "\<exists>r. on_failure msg now c = (Some r, c\<lparr>last_result := r\<rparr>)
       \<and> status r = ''error''
       \<and> trip_delays r =
           (if \<exists>t. last_success_utc c = Some t \<and> now - t \<le> 300 * 1000000
            then trip_delays (last_result c) else [])"
  by (auto simp: on_failure_def Let_def REALTIME_DELAY_MAX_STALE_SECONDS_def split: option.splits)

lemma refresh_failure:
  assumes "attempt_fails outcome"
  shows "refresh True outcome now c = on_failure (case outcome of Fetch_failed msg \<Rightarrow> msg | _ \<Rightarrow> ''timestamp out of range'') now c"
  using assms
  by (auto simp: attempt_fails_def refresh_def split: fetch_outcome.splits option.splits prod.splits)

text \<open>
  C5. When a refresh fails inside its \<^verbatim>\<open>try\<close> block (fetch or decode), the call returns a
  result with status "error"; its delay map is the previous one if the last successful
  fetch was at most 300 seconds before, and empty otherwise, also when there never was a
  successful fetch.
\<close>

theorem failure_keeps_fresh_delays:
  assumes "attempt_fails outcome"
  shows "\<exists>r c'. refresh True outcome now c = (Some r, c')
           \<and> last_result c' = r
           \<and> last_success_utc c' = last_success_utc c
           \<and> status r = ''error''
           \<and> trip_delays r =
               (if \<exists>t. last_success_utc c = Some t \<and> now - t \<le> 300 * 1000000
                then trip_delays (last_result c) else [])"
proof -
  let ?msg = "case outcome of Fetch_failed msg \<Rightarrow> msg | _ \<Rightarrow> ''timestamp out of range''"
  obtain r where "on_failure ?msg now c = (Some r, c\<lparr>last_result := r\<rparr>)"
    "status r = ''error''"
    "trip_delays r = (if \<exists>t. last_success_utc c = Some t \<and> now - t \<le> 300 * 1000000
            then trip_delays (last_result c) else [])"
    using on_failure_result by blast
  then show ?thesis
    using refresh_failure[OF assms, of now c] by simp
qed

theorem failure_keeps_fresh_delays_witness:
  "(\<exists>r c'. refresh True (Fetch_failed ''boom'') 1709280300000000 client_after_success = (Some r, c')
      \<and> status r = ''error'' \<and> trip_delays r = [(''t1'', 60)])
   \<and> (\<exists>r c'. refresh True (Fetch_failed ''boom'') 1709280300000001 client_after_success = (Some r, c')
      \<and> status r = ''error'' \<and> trip_delays r = [])
   \<and> (\<exists>r c'. refresh True (Fetch_failed ''boom'') 1709280300000000 new_client = (Some r, c')
      \<and> status r = ''error'' \<and> trip_delays r = [])"
proof -
  have f: "attempt_fails (Fetch_failed ''boom'')"
    by (simp add: attempt_fails_def)
  have s: "last_success_utc client_after_success = Some 1709280000000000"
    "trip_delays (last_result client_after_success) = [(''t1'', 60)]"
    "last_success_utc new_client = None"
    by code_simp+
  have "\<exists>r c'. refresh True (Fetch_failed ''boom'') 1709280300000000 client_after_success = (Some r, c')
      \<and> status r = ''error'' \<and> trip_delays r = [(''t1'', 60)]"
    using failure_keeps_fresh_delays[OF f, of 1709280300000000 client_after_success]
    by (auto simp: s)
  moreover
  have "\<exists>r c'. refresh True (Fetch_failed ''boom'') 1709280300000001 client_after_success = (Some r, c')
      \<and> status r = ''error'' \<and> trip_delays r = []"
    using failure_keeps_fresh_delays[OF f, of 1709280300000001 client_after_success]
    by (auto simp: s)
  moreover
  have "\<exists>r c'. refresh True (Fetch_failed ''boom'') 1709280300000000 new_client = (Some r, c')
      \<and> status r = ''error'' \<and> trip_delays r = []"
    using failure_keeps_fresh_delays[OF f, of 1709280300000000 new_client]
    by (auto simp: s)
  ultimately show ?thesis
    by blast
qed

subsection \<open>The status of the realtime client\<close>

lemma refresh_completed:
  assumes "refresh decoder outcome now c = (Some r, c')"
  shows "last_result c' = r \<and> (status r = ''ok'' \<or> status r = ''error'')"
  using assms
  by (auto simp: refresh_def on_failure_def Let_def
      split: if_splits fetch_outcome.splits option.splits prod.splits)

lemma refresh_cancelled:
  assumes "\<not> completes decoder (outcome, now)"
  shows "refresh decoder outcome now c = (None, c)"
  using assms by (simp add: completes_def refresh_def)

lemma refresh_returns:
  assumes "completes decoder (outcome, now)"
  shows "\<exists>r. fst (refresh decoder outcome now c) = Some r"
  using assms
  by (auto simp: completes_def refresh_def on_failure_def Let_def
      split: fetch_outcome.splits option.splits prod.splits)

lemma refresh_settles:
  assumes "completes decoder (outcome, now) \<or> settled c"
  shows "settled (snd (refresh decoder outcome now c))"
proof (cases "completes decoder (outcome, now)")
  case True
  then obtain r where "fst (refresh decoder outcome now c) = Some r"
    using refresh_returns by blast
  then have "refresh decoder outcome now c = (Some r, snd (refresh decoder outcome now c))"
    by (metis prod.collapse)
  from refresh_completed[OF this] show ?thesis
    by (simp add: settled_def)
next
  case False
  then show ?thesis
    using assms by (simp add: refresh_cancelled)
qed

lemma refresh_all_settled:
  assumes "settled c"
  shows "settled (refresh_all decoder calls c)"
  using assms
  by (induction calls arbitrary: c) (auto simp: refresh_settles)

lemma refresh_all_settles:
  assumes "\<exists>call \<in> set calls. completes decoder call"
  shows "settled (refresh_all decoder calls c)"
  using assms
proof (induction calls arbitrary: c)
  case Nil
  then show ?case by simp
next
  case (Cons call calls)
  show ?case
  proof (cases "completes decoder call")
    case True
    then have "settled (snd (refresh decoder (fst call) (snd call) c))"
      using refresh_settles[of decoder "fst call" "snd call" c] by simp
    then show ?thesis
      by (simp add: refresh_all_settled)
  next
    case False
    then show ?thesis
      using Cons by simp
  qed
qed

lemma refresh_all_idle:
  assumes "\<forall>call \<in> set calls. \<not> completes decoder call"
  shows "refresh_all decoder calls c = c"
  using assms
  by (induction calls arbitrary: c) (auto simp: completes_def refresh_def)

text \<open>
  C9. The status is "stale" for a new client and stays so while no call to \<^verbatim>\<open>refresh\<close>
  has returned; every call that returns reports "ok" or "error" and stores it, and after
  any sequence of calls of which one returned the status is "ok" or "error".
\<close>

theorem status_stale_only_before_first_attempt:
  "status (last_result new_client) = ''stale''
   \<and> ((\<forall>call \<in> set calls. \<not> completes decoder call) \<longrightarrow> refresh_all decoder calls c = c)
   \<and> (\<forall>r c'. refresh decoder outcome now c = (Some r, c') \<longrightarrow>
         last_result c' = r \<and> (status r = ''ok'' \<or> status r = ''error''))
   \<and> ((\<exists>call \<in> set calls. completes decoder call) \<longrightarrow>
         status (last_result (refresh_all decoder calls c)) = ''ok''
         \<or> status (last_result (refresh_all decoder calls c)) = ''error'')"
  using refresh_all_idle[of calls decoder c] refresh_completed[of decoder outcome now c]
    refresh_all_settles[of calls decoder c]
  by (simp add: new_client_def settled_def)

theorem status_stale_only_before_first_attempt_witness:
  "status (last_result (refresh_all True [(Cancelled, 5), (Fetch_failed ''boom'', 7), (Cancelled, 9)]
             new_client)) = ''error''
   \<and> status (last_result (refresh_all True [(Cancelled, 5)] new_client)) = ''stale''"
proof -
  let ?calls = "[(Cancelled, 5), (Fetch_failed ''boom'', 7), (Cancelled, 9)]"
  have a: "\<exists>call \<in> set ?calls. completes True call"
    by (simp add: completes_def)
  have b: "\<forall>call \<in> set [(Cancelled, 5)]. \<not> completes True call"
    by (simp add: completes_def)
  have c: "status (last_result (refresh_all True ?calls new_client)) \<noteq> ''ok''"
    by code_simp
  have "status (last_result (refresh_all True ?calls new_client)) = ''ok''
        \<or> status (last_result (refresh_all True ?calls new_client)) = ''error''"
    using status_stale_only_before_first_attempt[of ?calls True new_client] a by blast
  moreover have "refresh_all True [(Cancelled, 5)] new_client = new_client"
    and "status (last_result new_client) = ''stale''"
    using status_stale_only_before_first_attempt[of "[(Cancelled, 5)]" True new_client] b
    by blast+
  ultimately show ?thesis
    using c by metis
qed

subsection \<open>The previous feed from the listing pages\<close>

lemma add_candidates_set:
  "set (add_candidates cs acc) = set acc \<union> set cs"
  by (induction cs arbitrary: acc) auto



lemma collect_candidates_set:
  "set (collect_candidates listing pages acc) =
     set acc \<union> (\<Union>p \<in> set pages. case listing p of None \<Rightarrow> {} | Some cs \<Rightarrow> set cs)"
  by (induction pages arbitrary: acc) (auto simp: add_candidates_set split: option.splits)






text \<open>
  A version that \<^verbatim>\<open>_safe_version\<close> wrote (as \<^verbatim>\<open>refresh_from_url\<close> does for every feed it
  stores) and that is short enough for a file name can be ranked: \<^verbatim>\<open>_meta_rank\<close> does not
  raise on it.
\<close>

lemma py_digits_from_digits:
  assumes "\<forall>c \<in> set ds. is_digit c"
  shows "\<exists>n. py_digits_from acc ds = Some n"
  using assms by (induction acc ds rule: py_digits_from.induct) auto

lemma strip_chars_id:
  assumes "s \<noteq> []" "\<not> p (hd s)" "\<not> p (last s)"
  shows "strip_chars p s = s"
proof -
  have "dropWhile p s = s"
    using assms by (cases s) auto
  moreover have "dropWhile p (rev s) = rev s"
    using assms by (cases "rev s") (auto simp: last_rev[symmetric] simp del: last_rev)
  ultimately show ?thesis
    by (simp add: strip_chars_def)
qed

lemma digit_not_space: "is_digit c \<Longrightarrow> \<not> int_isspace c"
  by (auto simp: is_digit_def int_isspace_def)

lemma digit_not_sign: "is_digit c \<Longrightarrow> c \<noteq> CHR ''-'' \<and> c \<noteq> CHR ''+''"
  by (auto simp: is_digit_def)

lemma py_int_digits:
  assumes "s \<noteq> []" "\<forall>c \<in> set s. is_digit c" "length s \<le> 4300"
  shows "\<exists>n. py_int s = Some n"
proof -
  obtain c r where s: "s = c # r"
    using assms(1) by (cases s) auto
  have "is_digit (hd s)" "is_digit (last s)"
    using assms(1,2) by auto
  then have st: "strip_chars int_isspace s = s"
    using assms(1) by (intro strip_chars_id) (auto dest: digit_not_space)
  have f: "filter is_digit s = s"
    using assms(2) by simp
  obtain n where "py_digits_from (digit_val c) r = Some n"
    using py_digits_from_digits[of r] assms(2) s by auto
  then show ?thesis
    using assms(2,3) digit_not_sign[of c]
    by (simp add: py_int_def st f Let_def s[symmetric]) (simp add: s py_digits_def)
qed

lemma safe_version_rankable:
  assumes "version m = safe_version raw" "length (version m) \<le> 4300"
  shows "rankable m"
proof (cases "str_isdigit (version m)")
  case False
  then show ?thesis
    by (simp add: rankable_def meta_rank_def Let_def del: split_paired_Ex)
next
  case True
  have safe: "\<forall>c \<in> set (version m). safe_char c"
    by (auto simp: assms(1) safe_version_def safe_char_def)
  have "\<forall>c \<in> set (version m). is_digit c"
  proof
    fix c assume c: "c \<in> set (version m)"
    then have "is_digit c \<or> (of_char c :: int) \<in> {178, 179, 185}"
      using True by (simp add: str_isdigit_def)
    moreover have "safe_char c"
      using safe c by simp
    ultimately show "is_digit c"
      by (auto simp: safe_char_def Let_def)
  qed
  moreover have "version m \<noteq> []"
    using True by (simp add: str_isdigit_def)
  ultimately obtain n where "py_int (version m) = Some n"
    using py_int_digits assms(2) by blast
  then show ?thesis
    using True by (simp add: rankable_def meta_rank_def Let_def del: split_paired_Ex)
qed




subsection \<open>The active services of a day are repeatable\<close>

lemma services_on_cong:
  assumes "calendar idx' = calendar idx" "calendar_dates idx' = calendar_dates idx"
  shows "services_on idx' day = services_on idx day"
  by (simp add: services_on_def assms)

lemma map_of_prune_cache:
  "map_of (prune_cache cache) k = None \<or> map_of (prune_cache cache) k = map_of cache k"
proof (cases "length cache > 8")
  case False
  then show ?thesis by (simp add: prune_cache_def)
next
  case True
  define ks where "ks = drop (length (sort (map fst cache)) - 8) (sort (map fst cache))"
  have sub: "set ks \<subseteq> fst ` set cache"
    unfolding ks_def using set_drop_subset[of _ "sort (map fst cache)"] by auto
  have "map_of (map (\<lambda>k. (k, the (map_of cache k))) ks) k
          = (if k \<in> set ks then Some (the (map_of cache k)) else None)"
    by (induction ks) auto
  moreover have "k \<in> set ks \<Longrightarrow> map_of cache k \<noteq> None"
    using sub by (auto simp: map_of_eq_None_iff)
  ultimately show ?thesis
    using True by (auto simp: prune_cache_def Let_def ks_def)
qed

lemma prune_cache_refs: "snd ` set (prune_cache cache) \<subseteq> snd ` set cache"
proof (cases "length cache > 8")
  case False
  then show ?thesis by (simp add: prune_cache_def)
next
  case True
  define ks where "ks = drop (length (sort (map fst cache)) - 8) (sort (map fst cache))"
  have sub: "set ks \<subseteq> fst ` set cache"
    unfolding ks_def using set_drop_subset[of _ "sort (map fst cache)"] by auto
  have "the (map_of cache k) \<in> snd ` set cache" if kin: "k \<in> set ks" for k
  proof -
    obtain v where "map_of cache k = Some v"
      using sub kin by (cases "map_of cache k") (auto simp: map_of_eq_None_iff)
    then show ?thesis
      using map_of_SomeD[of cache k v] by force
  qed
  then show ?thesis
    using True by (auto simp: prune_cache_def Let_def ks_def)
qed

lemma update_refs: "snd ` set (AList.update k v al) \<subseteq> insert v (snd ` set al)"
  by (induction al) auto

lemma alloc_set_simps:
  "fst (alloc_set content idx) = next_ref idx"
  "next_ref (snd (alloc_set content idx)) = Suc (next_ref idx)"
  "set_store (snd (alloc_set content idx)) = (set_store idx)(next_ref idx := content)"
  "active_services_cache (snd (alloc_set content idx)) = active_services_cache idx"
  "calendar (snd (alloc_set content idx)) = calendar idx"
  "calendar_dates (snd (alloc_set content idx)) = calendar_dates idx"
  by (simp_all add: alloc_set_def)

text \<open>The two ways the function returns.\<close>

lemma active_services_hit:
  assumes "map_of (active_services_cache idx) day = Some cached"
  shows "active_services_for_day idx day =
           (next_ref idx,
            idx\<lparr>set_store := (set_store idx)(next_ref idx := set_store idx cached),
                next_ref := Suc (next_ref idx)\<rparr>)"
  using assms by (simp add: active_services_for_day_def alloc_set_def)

lemma active_services_miss:
  assumes "map_of (active_services_cache idx) day = None"
  shows "active_services_for_day idx day =
           (next_ref idx,
            idx\<lparr>set_store := (set_store idx)
                    (next_ref idx := services_on idx day, Suc (next_ref idx) := services_on idx day),
                next_ref := Suc (Suc (next_ref idx)),
                active_services_cache :=
                  prune_cache (AList.update day (Suc (next_ref idx)) (active_services_cache idx))\<rparr>)"
  using assms by (simp add: active_services_for_day_def alloc_set_def)

lemma active_services_fresh:
  assumes wf: "cache_refs_allocated idx" and call: "active_services_for_day idx day = (r, idx')"
  shows "r = next_ref idx \<and> r < next_ref idx' \<and> r \<notin> snd ` set (active_services_cache idx')
         \<and> cache_refs_allocated idx' \<and> calendar idx' = calendar idx
         \<and> calendar_dates idx' = calendar_dates idx"
proof (cases "map_of (active_services_cache idx) day")
  case (Some cached)
  have "(r, idx') = active_services_for_day idx day"
    using call by simp
  from this[unfolded active_services_hit[OF Some]]
  have r: "r = next_ref idx"
    and i: "idx' = idx\<lparr>set_store := (set_store idx)(next_ref idx := set_store idx cached),
                       next_ref := Suc (next_ref idx)\<rparr>"
    by simp_all
  show ?thesis
    using wf unfolding r i by (auto simp: cache_refs_allocated_def)
next
  case None
  have "(r, idx') = active_services_for_day idx day"
    using call by simp
  from this[unfolded active_services_miss[OF None]]
  have r: "r = next_ref idx"
    and i: "idx' = idx\<lparr>set_store := (set_store idx)
                    (next_ref idx := services_on idx day, Suc (next_ref idx) := services_on idx day),
                next_ref := Suc (Suc (next_ref idx)),
                active_services_cache :=
                  prune_cache (AList.update day (Suc (next_ref idx)) (active_services_cache idx))\<rparr>"
    by simp_all
  have refs: "snd ` set (active_services_cache idx')
                \<subseteq> insert (Suc (next_ref idx)) (snd ` set (active_services_cache idx))"
  proof -
    have "snd ` set (prune_cache (AList.update day (Suc (next_ref idx)) (active_services_cache idx)))
            \<subseteq> snd ` set (AList.update day (Suc (next_ref idx)) (active_services_cache idx))"
      by (rule prune_cache_refs)
    also have "\<dots> \<subseteq> insert (Suc (next_ref idx)) (snd ` set (active_services_cache idx))"
      by (rule update_refs)
    finally show ?thesis
      by (simp add: i)
  qed
  have old: "\<forall>x \<in> snd ` set (active_services_cache idx). x < next_ref idx"
    using wf by (simp add: cache_refs_allocated_def)
  have "r \<notin> snd ` set (active_services_cache idx')"
  proof
    assume "r \<in> snd ` set (active_services_cache idx')"
    then have "r = Suc (next_ref idx) \<or> r \<in> snd ` set (active_services_cache idx)"
      using refs by auto
    then show False
      using old r by auto
  qed
  moreover have "cache_refs_allocated idx'"
    unfolding cache_refs_allocated_def
  proof
    fix x assume "x \<in> snd ` set (active_services_cache idx')"
    then have "x = Suc (next_ref idx) \<or> x \<in> snd ` set (active_services_cache idx)"
      using refs by auto
    then have "x < Suc (Suc (next_ref idx))"
      using old by (auto simp: less_Suc_eq)
    then show "x < next_ref idx'"
      by (simp add: i)
  qed
  ultimately show ?thesis
    by (simp add: r) (simp add: i)
qed

lemma active_services_again:
  assumes wf: "cache_refs_allocated idx"
    and c1: "active_services_for_day idx day = (r1, idx1)"
    and c2: "active_services_for_day (mutate_set r1 content idx1) day = (r2, idx2)"
  shows "set_store idx2 r2 = set_store idx1 r1 \<and> r2 \<noteq> r1"
proof (cases "map_of (active_services_cache idx) day")
  case (Some cached)
  have "(r1, idx1) = active_services_for_day idx day"
    using c1 by simp
  from this[unfolded active_services_hit[OF Some]]
  have r1: "r1 = next_ref idx"
    and i1: "idx1 = idx\<lparr>set_store := (set_store idx)(next_ref idx := set_store idx cached),
                       next_ref := Suc (next_ref idx)\<rparr>"
    by simp_all
  have "cached \<in> snd ` set (active_services_cache idx)"
    using map_of_SomeD[OF Some] by force
  then have ne: "cached \<noteq> next_ref idx"
    using wf by (auto simp: cache_refs_allocated_def)
  have hit: "map_of (active_services_cache (mutate_set r1 content idx1)) day = Some cached"
    using Some by (simp add: mutate_set_def i1)
  have "(r2, idx2) = active_services_for_day (mutate_set r1 content idx1) day"
    using c2 by simp
  from this[unfolded active_services_hit[OF hit]]
  have "r2 = next_ref (mutate_set r1 content idx1)"
    and "set_store idx2 r2 = set_store (mutate_set r1 content idx1) cached"
    by simp_all
  then show ?thesis
    using ne by (simp add: mutate_set_def i1 r1)
next
  case None
  have "(r1, idx1) = active_services_for_day idx day"
    using c1 by simp
  from this[unfolded active_services_miss[OF None]]
  have r1: "r1 = next_ref idx"
    and i1: "idx1 = idx\<lparr>set_store := (set_store idx)
                    (next_ref idx := services_on idx day, Suc (next_ref idx) := services_on idx day),
                next_ref := Suc (Suc (next_ref idx)),
                active_services_cache :=
                  prune_cache (AList.update day (Suc (next_ref idx)) (active_services_cache idx))\<rparr>"
    by simp_all
  let ?idx1' = "mutate_set r1 content idx1"
  have first: "set_store idx1 r1 = services_on idx day"
    by (simp add: i1 r1)
  have same: "services_on ?idx1' day = services_on idx day"
    by (rule services_on_cong) (simp_all add: mutate_set_def i1)
  have "(r2, idx2) = active_services_for_day ?idx1' day"
    using c2 by simp
  note second = this
  show ?thesis
  proof (cases "map_of (active_services_cache ?idx1') day")
    case None
    from second[unfolded active_services_miss[OF None]]
    have "r2 = next_ref ?idx1'" and "set_store idx2 r2 = services_on ?idx1' day"
      by simp_all
    then show ?thesis
      using first same by (simp add: mutate_set_def i1 r1)
  next
    case (Some cached)
    have "active_services_cache ?idx1'
            = prune_cache (AList.update day (Suc (next_ref idx)) (active_services_cache idx))"
      by (simp add: mutate_set_def i1)
    then have "map_of (AList.update day (Suc (next_ref idx)) (active_services_cache idx)) day
                 = Some cached"
      using Some map_of_prune_cache[of "AList.update day (Suc (next_ref idx)) (active_services_cache idx)" day]
      by auto
    then have cached: "cached = Suc (next_ref idx)"
      by (simp add: update_conv')
    from second[unfolded active_services_hit[OF Some]]
    have "r2 = next_ref ?idx1'" and "set_store idx2 r2 = set_store ?idx1' cached"
      by simp_all
    then show ?thesis
      using first by (simp add: mutate_set_def i1 r1 cached)
  qed
qed

lemma mutate_set_same: "mutate_set r (set_store idx r) idx = idx"
  by (simp add: mutate_set_def)

text \<open>
  A loaded index has an empty cache, so every reference in its cache is allocated; the
  function keeps it so.
\<close>

lemma foldl_keeps_field:
  assumes "\<And>i r. g (f i r) = g i"
  shows "g (foldl f idx rs) = g idx"
  by (induction rs arbitrary: idx) (simp_all add: assms)

lemma load_stop_times_keeps_cache:
  assumes "load_stop_times idx rs = Inr idx'"
  shows "active_services_cache idx' = active_services_cache idx"
  using assms
proof (induction rs arbitrary: idx)
  case Nil
  then show ?case by simp
next
  case (Cons r rs)
  then obtain i where i: "load_stop_time_row idx r = Inr i" "load_stop_times i rs = Inr idx'"
    by (auto split: sum.splits)
  have "active_services_cache i = active_services_cache idx"
    using i(1) by (auto simp: load_stop_time_row_def Let_def split: if_splits option.splits)
  then show ?case
    using Cons.IH[OF i(2)] by simp
qed

lemma load_cache_empty:
  assumes "load t = Inr idx"
  shows "active_services_cache idx = []" "cache_refs_allocated idx"
proof -
  define idx3 where "idx3 = foldl load_trip_row
      (foldl load_stop_row (foldl load_route_row empty_index (routes_txt t)) (stops_txt t)) (trips_txt t)"
  obtain idx4 where i4: "load_stop_times idx3 (stop_times_txt t) = Inr idx4"
    and idx: "idx = foldl load_calendar_date_row
        (foldl load_calendar_row (sort_stop_lists idx4) (calendar_txt t)) (calendar_dates_txt t)"
    using assms by (auto simp: load_def Let_def idx3_def split: sum.splits)
  have "active_services_cache idx3 = []"
    unfolding idx3_def
    by (simp add: foldl_keeps_field[where g = active_services_cache] load_trip_row_def
        load_stop_row_def load_route_row_def Let_def empty_index_def)
  then have "active_services_cache idx4 = []"
    using load_stop_times_keeps_cache[OF i4] by simp
  then show "active_services_cache idx = []"
    unfolding idx
    by (simp add: foldl_keeps_field[where g = active_services_cache] load_calendar_row_def
        load_calendar_date_row_def sort_stop_lists_def)
  then show "cache_refs_allocated idx"
    by (simp add: cache_refs_allocated_def)
qed

text \<open>
  C8. Calling \<^verbatim>\<open>_active_services_for_day\<close> twice for the same date on the same index gives
  equal sets. The set handed to the caller is an object of its own, not the one in the
  cache, so whatever the caller does to it, the next call for the date gives the same set
  again.
\<close>

theorem active_services_for_day_idempotent:
  assumes "cache_refs_allocated idx"
    and "active_services_for_day idx day = (r1, idx1)"
  shows "(\<forall>r2 idx2. active_services_for_day idx1 day = (r2, idx2) \<longrightarrow>
            set_store idx2 r2 = set_store idx1 r1)
       \<and> r1 \<notin> snd ` set (active_services_cache idx1)
       \<and> (\<forall>content r2 idx2.
            active_services_for_day (mutate_set r1 content idx1) day = (r2, idx2) \<longrightarrow>
            set_store idx2 r2 = set_store idx1 r1 \<and> r2 \<noteq> r1)
       \<and> cache_refs_allocated idx1"
proof -
  have a: "set_store idx2 r2 = set_store idx1 r1 \<and> r2 \<noteq> r1"
    if "active_services_for_day (mutate_set r1 content idx1) day = (r2, idx2)"
    for content r2 idx2
    using active_services_again[OF assms that] .
  have b: "set_store idx2 r2 = set_store idx1 r1"
    if "active_services_for_day idx1 day = (r2, idx2)" for r2 idx2
    using a[of "set_store idx1 r1" r2 idx2] that by (simp add: mutate_set_same)
  show ?thesis
    using a b active_services_fresh[OF assms] by blast
qed

theorem active_services_for_day_idempotent_witness:
  "\<exists>r1 idx1 r2 idx2.
     active_services_for_day small_index (2024, 3, 1) = (r1, idx1)
     \<and> active_services_for_day (mutate_set r1 {''x''} idx1) (2024, 3, 1) = (r2, idx2)
     \<and> set_store idx1 r1 = {''wk''} \<and> set_store idx2 r2 = {''wk''} \<and> r2 \<noteq> r1"
proof -
  have "case load small_feed of Inl e \<Rightarrow> False | Inr idx \<Rightarrow> True"
    by code_simp
  then obtain idx where "load small_feed = Inr idx"
    by (auto split: sum.splits)
  then have wf: "cache_refs_allocated small_index"
    using load_cache_empty(2)[of small_feed idx] by (simp add: small_index_def)
  obtain r1 idx1 where c1: "active_services_for_day small_index (2024, 3, 1) = (r1, idx1)"
    by (cases "active_services_for_day small_index (2024, 3, 1)") auto
  obtain r2 idx2 where
    c2: "active_services_for_day (mutate_set r1 {''x''} idx1) (2024, 3, 1) = (r2, idx2)"
    by (cases "active_services_for_day (mutate_set r1 {''x''} idx1) (2024, 3, 1)") auto
  have "set_store (snd (active_services_for_day small_index (2024, 3, 1)))
          (fst (active_services_for_day small_index (2024, 3, 1))) = {''wk''}"
    by code_simp
  then have s1: "set_store idx1 r1 = {''wk''}"
    by (simp add: c1)
  show ?thesis
    using active_services_for_day_idempotent[OF wf c1] c1 c2 s1 by metis
qed

subsection \<open>The station board stays inside its window\<close>






subsection \<open>Departures between two stops: no repeats, sorted, truncated\<close>










end
